theory Spec2Isabelle
  imports Main
begin

section \<open>JavaScript values and strings\<close>

text \<open>
  \<^verbatim>\<open>createOptions(input: any)\<close> reads the fields of an untyped object. The values
  modelled are the ones a command-line parser hands over (absent fields, booleans,
  strings) and \<^verbatim>\<open>null\<close>. An object is a finite map from field names to values; reading
  an absent field gives \<^verbatim>\<open>undefined\<close>.
\<close>

datatype jsval = JUndefined | JNull | JBool bool | JStr string

type_synonym jsobj = "string \<rightharpoonup> jsval"

definition get_field :: "jsobj \<Rightarrow> string \<Rightarrow> jsval" where
  "get_field obj k = (case obj k of None \<Rightarrow> JUndefined | Some v \<Rightarrow> v)"

text \<open>Truthiness, as \<^verbatim>\<open>!x\<close>, \<^verbatim>\<open>x || y\<close> and \<^verbatim>\<open>if (x)\<close> read it.\<close>

fun js_truthy :: "jsval \<Rightarrow> bool" where
  "js_truthy JUndefined = False"
| "js_truthy JNull = False"
| "js_truthy (JBool b) = b"
| "js_truthy (JStr s) = (s \<noteq> [])"

text \<open>\<^verbatim>\<open>a || b\<close>: the left operand when it is truthy, the right one otherwise.\<close>

definition js_or :: "jsval \<Rightarrow> jsval \<Rightarrow> jsval" where
  "js_or a b = (if js_truthy a then a else b)"

text \<open>A value inside a template literal.\<close>

fun js_to_string :: "jsval \<Rightarrow> string" where
  "js_to_string JUndefined = ''undefined''"
| "js_to_string JNull = ''null''"
| "js_to_string (JBool b) = (if b then ''true'' else ''false'')"
| "js_to_string (JStr s) = s"

text \<open>\<^verbatim>\<open>s.split(c)\<close> for a one-character separator: never the empty list.\<close>

fun split_on :: "char \<Rightarrow> string \<Rightarrow> string list" where
  "split_on c [] = [[]]"
| "split_on c (x # xs) =
     (if x = c then [] # split_on c xs
      else (case split_on c xs of
              [] \<Rightarrow> [[x]]
            | y # ys \<Rightarrow> (x # y) # ys))"

text \<open>\<^verbatim>\<open>xs.join(sep)\<close>.\<close>

fun join_with :: "string \<Rightarrow> string list \<Rightarrow> string" where
  "join_with sep [] = []"
| "join_with sep [x] = x"
| "join_with sep (x # y # ys) = x @ sep @ join_with sep (y # ys)"

text \<open>\<^verbatim>\<open>s.trim()\<close>: white space is removed at both ends.\<close>

definition is_ws :: "char \<Rightarrow> bool" where
  "is_ws c = (c = CHR '' '' \<or> c = CHR 0x09 \<or> c = CHR 0x0A \<or> c = CHR 0x0B
              \<or> c = CHR 0x0C \<or> c = CHR 0x0D)"

definition js_trim :: "string \<Rightarrow> string" where
  "js_trim s = rev (dropWhile is_ws (rev (dropWhile is_ws s)))"

section \<open>path.resolve\<close>

text \<open>
  \<^verbatim>\<open>path.resolve(p)\<close> of Node's \<^verbatim>\<open>path\<close> module (POSIX), for one argument: a relative
  path is taken from the working directory, then empty and \<^verbatim>\<open>.\<close> segments are dropped
  and \<^verbatim>\<open>..\<close> removes the segment before it. \<open>up\<close> is the library's
  \<^verbatim>\<open>allowAboveRoot\<close>, set when the result is not absolute.
\<close>

fun normalize_segments :: "bool \<Rightarrow> string list \<Rightarrow> string list \<Rightarrow> string list" where
  "normalize_segments up acc [] = acc"
| "normalize_segments up acc (seg # segs) =
     (if seg = [] \<or> seg = ''.'' then normalize_segments up acc segs
      else if seg = ''..'' then
        (if acc \<noteq> [] \<and> last acc \<noteq> ''..'' then normalize_segments up (butlast acc) segs
         else if up then normalize_segments up (acc @ [''..'']) segs
         else normalize_segments up acc segs)
      else normalize_segments up (acc @ [seg]) segs)"

definition is_absolute :: "string \<Rightarrow> bool" where
  "is_absolute p = (case p of [] \<Rightarrow> False | c # _ \<Rightarrow> c = CHR ''/'')"

definition path_resolve :: "string \<Rightarrow> string \<Rightarrow> string" where
  "path_resolve cwd p =
     (let full = (if is_absolute p then p else if p = [] then cwd else cwd @ ''/'' @ p);
          absolute = (is_absolute p \<or> is_absolute cwd);
          body = join_with ''/'' (normalize_segments (\<not> absolute) [] (split_on CHR ''/'' full))
      in if absolute then ''/'' @ body else if body = [] then ''.'' else body)"

section \<open>Options\<close>

text \<open>
  \<^verbatim>\<open>type Options\<close>. Only \<open>distPath\<close> is known to be a string, since it comes out of
  \<^verbatim>\<open>path.resolve\<close>; the other fields hold whatever the input object held.
\<close>

record Options =
  opensslVersion :: jsval
  target :: jsval
  clean :: jsval
  distPath :: string
  androidAPI :: jsval
  androidArchs :: jsval
  iphoneosArchs :: jsval
  iphonesimArchs :: jsval

text \<open>
  What the program throws. Each constructor is one \<^verbatim>\<open>throw\<close> of the source (named by
  its message) or an exception of the runtime.
\<close>

datatype err =
    VersionNotSpecified               \<comment> \<open>OpenSSL version not specified\<close>
  | NotAString string                 \<comment> \<open>TypeError: the named expression is not a string\<close>
  | InvalidAndroidArch string         \<comment> \<open>Invalid Android architecture: ...\<close>
  | NdkHomeUnset                      \<comment> \<open>Please set ANDROID_NDK_HOME environment variable\<close>
  | NdkHomeInvalid                    \<comment> \<open>... to the correct path\<close>
  | NoSuitableToolchain               \<comment> \<open>Failed to find a suitable toolchain\<close>
  | ShellFailed "string list"         \<comment> \<open>the shell command left with a non-zero status\<close>
  | UntarFailed err                   \<comment> \<open>Failed to untar OpenSSL: ...\<close>
  | ExtractFailed                     \<comment> \<open>Failed to extract OpenSSL to correct path\<close>
  | LibraryNotFound string            \<comment> \<open>Library ... not found\<close>
  | AndroidArchFailed string err      \<comment> \<open>Failed to build OpenSSL for Android ...: ...\<close>
  | IosArchsMissing string            \<comment> \<open>iOS (simulator) architectures not specified\<close>
  | XcodePathFailed err               \<comment> \<open>Error getting Xcode developer path: ...\<close>
  | IosArchFailed string string err   \<comment> \<open>Failed building OpenSSL for iPhone OS ...: ...\<close>
  | ChdirFailed string                \<comment> \<open>process.chdir could not enter the directory\<close>
  | DownloadFailed string             \<comment> \<open>fetch or Bun.write failed\<close>

text \<open>
  \<^verbatim>\<open>createOptions\<close>, lines 58 to 72. The object literal is evaluated field by field, so
  the only later failure is \<^verbatim>\<open>path.resolve\<close>, which throws a TypeError for an argument
  that is not a string. \<open>cwd\<close> is \<^verbatim>\<open>process.cwd()\<close>, which \<^verbatim>\<open>path.resolve\<close> reads.
\<close>

definition createOptions :: "string \<Rightarrow> jsobj \<Rightarrow> err + Options" where
  "createOptions cwd input =
     (if \<not> js_truthy (get_field input ''opensslVersion'') then Inl VersionNotSpecified
      else (case get_field input ''distPath'' of
              JStr p \<Rightarrow>
                Inr \<lparr> opensslVersion = get_field input ''opensslVersion'',
                      target = get_field input ''target'',
                      clean = js_or (get_field input ''clean'') (JBool True),
                      distPath = path_resolve cwd p,
                      androidAPI = get_field input ''androidAPI'',
                      androidArchs = get_field input ''androidArchs'',
                      iphoneosArchs = get_field input ''iphoneosArchs'',
                      iphonesimArchs = get_field input ''iphonesimArchs'' \<rparr>
            | _ \<Rightarrow> Inl (NotAString ''paths[0]'')))"

section \<open>The process and its host\<close>

text \<open>
  The program acts on its host through shell commands (Bun's \<^verbatim>\<open>$\<close>), \<^verbatim>\<open>fs.existsSync\<close>,
  \<^verbatim>\<open>process.chdir\<close>, \<^verbatim>\<open>fetch\<close> and \<^verbatim>\<open>Bun.write\<close>. What these do is not the program's
  to decide, so the host is a parameter: a state \<open>'w\<close> and the functions below. A command
  is its argument vector: Bun passes an interpolated string as one argument, whatever it
  contains, and an interpolated array as one argument for each element.
\<close>

record 'w sys =
  sh_run :: "string \<Rightarrow> (string \<times> string) list \<Rightarrow> string list \<Rightarrow> 'w \<Rightarrow> string option \<times> 'w"
    \<comment> \<open>working directory, environment, command: standard output (\<open>None\<close> for a non-zero
        exit status) and the host afterwards\<close>
  exists_sync :: "string \<Rightarrow> string \<Rightarrow> 'w \<Rightarrow> bool"
    \<comment> \<open>working directory, path\<close>
  can_chdir :: "string \<Rightarrow> string \<Rightarrow> 'w \<Rightarrow> bool"
    \<comment> \<open>working directory, target\<close>
  fetch_write :: "string \<Rightarrow> string \<Rightarrow> 'w \<Rightarrow> bool \<times> 'w"
    \<comment> \<open>URL, file: whether the download and the write went through\<close>

datatype event = Sh "string list" | Download string string

text \<open>
  A handler registered with \<^verbatim>\<open>process.on("exit", ...)\<close> removes a path. Most handlers
  close over a \<^verbatim>\<open>const\<close>, so the path is fixed when they are registered. The handlers of
  \<^verbatim>\<open>buildForIosIphoneos\<close> (lines 315 to 323) close over the variable \<^verbatim>\<open>installPath\<close> that
  line 305 declares outside the loop: they remove whatever that variable holds when they
  run.
\<close>

datatype hook = RemovePath string | RemoveInstallPath nat

text \<open>
  The state of the process: the host, \<^verbatim>\<open>process.cwd()\<close>, \<^verbatim>\<open>process.env\<close> (an association
  list, the latest assignment first), the variables \<^verbatim>\<open>installPath\<close> of line 305 (one for
  each call of the callback that declares it, a handler naming its variable by its
  position), the handlers registered with \<^verbatim>\<open>process.on("exit", ...)\<close>, and the commands run
  so far, oldest first. Logging changes nothing the program reads and is left out, but
  for the error the last handler reports.
\<close>

record 'w st =
  world :: 'w
  cwd :: string
  env :: "(string \<times> string) list"
  installPaths :: "string list"
  exit_hooks :: "hook list"
  trace :: "event list"

text \<open>\<^verbatim>\<open>process.env.NAME\<close>: the latest assignment, or \<^verbatim>\<open>undefined\<close>.\<close>

definition getenv :: "'w st \<Rightarrow> string \<Rightarrow> string option" where
  "getenv s name = map_of (env s) name"

text \<open>
  An \<^verbatim>\<open>async\<close> function takes the state and gives back what it returned or threw,
  with the state it left.
\<close>

type_synonym ('w, 'a) prog = "'w st \<Rightarrow> (err + 'a) \<times> 'w st"

definition ret :: "'a \<Rightarrow> ('w, 'a) prog" where
  "ret a s = (Inr a, s)"

definition throw :: "err \<Rightarrow> ('w, 'a) prog" where
  "throw e s = (Inl e, s)"

definition and_then :: "('w, 'a) prog \<Rightarrow> ('a \<Rightarrow> ('w, 'b) prog) \<Rightarrow> ('w, 'b) prog" where
  "and_then m f s = (case m s of (Inl e, s') \<Rightarrow> (Inl e, s') | (Inr a, s') \<Rightarrow> f a s')"

text \<open>\<^verbatim>\<open>try { m } catch (error) { throw new Error(... error ...) }\<close>\<close>

definition try_catch :: "(err \<Rightarrow> err) \<Rightarrow> ('w, 'a) prog \<Rightarrow> ('w, 'a) prog" where
  "try_catch wrap m s = (case m s of (Inl e, s') \<Rightarrow> (Inl (wrap e), s') | (Inr a, s') \<Rightarrow> (Inr a, s'))"

definition when_do :: "bool \<Rightarrow> ('w, unit) prog \<Rightarrow> ('w, unit) prog" where
  "when_do b m = (if b then m else ret ())"

text \<open>One shell command: it is recorded, and a non-zero status throws.\<close>

definition sh :: "'w sys \<Rightarrow> string list \<Rightarrow> ('w, string) prog" where
  "sh sys argv s =
     (case sh_run sys (cwd s) (env s) argv (world s) of
        (r, w) \<Rightarrow>
          (case r of
             None \<Rightarrow> (Inl (ShellFailed argv), s\<lparr>world := w, trace := trace s @ [Sh argv]\<rparr>)
           | Some out \<Rightarrow> (Inr out, s\<lparr>world := w, trace := trace s @ [Sh argv]\<rparr>)))"

text \<open>Commands awaited one after the other, their output unused.\<close>

fun sh_all :: "'w sys \<Rightarrow> string list list \<Rightarrow> ('w, unit) prog" where
  "sh_all sys [] s = (Inr (), s)"
| "sh_all sys (c # cs) s =
     (case sh sys c s of (Inl e, s') \<Rightarrow> (Inl e, s') | (Inr _, s') \<Rightarrow> sh_all sys cs s')"

definition on_exit :: "hook \<Rightarrow> ('w, unit) prog" where
  "on_exit h s = (Inr (), s\<lparr>exit_hooks := exit_hooks s @ [h]\<rparr>)"

text \<open>The path a handler removes if it runs in state \<open>s\<close>.\<close>

definition hook_path :: "'w st \<Rightarrow> hook \<Rightarrow> string" where
  "hook_path s h = (case h of RemovePath p \<Rightarrow> p | RemoveInstallPath v \<Rightarrow> installPaths s ! v)"

definition chdir :: "'w sys \<Rightarrow> string \<Rightarrow> ('w, unit) prog" where
  "chdir sys d s =
     (if can_chdir sys (cwd s) d (world s) then (Inr (), s\<lparr>cwd := d\<rparr>)
      else (Inl (ChdirFailed d), s))"

text \<open>\<^verbatim>\<open>fetch\<close>, \<^verbatim>\<open>arrayBuffer\<close> and \<^verbatim>\<open>Bun.write\<close> of lines 88 to 92, as one step.\<close>

definition download :: "'w sys \<Rightarrow> string \<Rightarrow> string \<Rightarrow> ('w, unit) prog" where
  "download sys url file s =
     (case fetch_write sys url file (world s) of
        (ok, w) \<Rightarrow>
          (if ok then (Inr (), s\<lparr>world := w, trace := trace s @ [Download url file]\<rparr>)
           else (Inl (DownloadFailed url), s\<lparr>world := w, trace := trace s @ [Download url file]\<rparr>)))"

text \<open>\<^verbatim>\<open>v.split(",")\<close> on a field of the options: a TypeError unless \<open>v\<close> is a string.\<close>

definition split_archs :: "string \<Rightarrow> jsval \<Rightarrow> err + string list" where
  "split_archs what v = (case v of JStr a \<Rightarrow> Inr (split_on CHR '','' a) | _ \<Rightarrow> Inl (NotAString what))"

definition lift :: "err + 'a \<Rightarrow> ('w, 'a) prog" where
  "lift r s = (r, s)"

section \<open>downloadOpenssl and withDir\<close>

text \<open>\<^verbatim>\<open>downloadOpenssl\<close>, lines 74 to 105.\<close>

definition downloadOpenssl :: "'w sys \<Rightarrow> jsval \<Rightarrow> jsval \<Rightarrow> ('w, string) prog" where
  "downloadOpenssl sys version shouldClean s =
     (let downloadPath = ''/tmp/openssl-'' @ js_to_string version @ ''.tar.gz'' in
      if exists_sync sys (cwd s) downloadPath (world s) \<and> \<not> js_truthy shouldClean
      then (Inr downloadPath, s)
      else
        (let srcPath = ''/tmp/openssl-'' @ js_to_string version in
         and_then (sh_all sys [[''rm'', ''-rf'', downloadPath],
                               [''rm'', ''-rf'', srcPath],
                               [''mkdir'', ''-p'', srcPath]]) (\<lambda>_.
         and_then (download sys (''https://www.openssl.org/source/openssl-''
                                  @ js_to_string version @ ''.tar.gz'') downloadPath) (\<lambda>_.
         and_then (when_do (js_truthy shouldClean) (on_exit (RemovePath downloadPath))) (\<lambda>_.
         ret downloadPath))) s))"

text \<open>
  \<^verbatim>\<open>withDir\<close>, lines 109 to 121: \<^verbatim>\<open>try { chdir; return await callback() } finally
  { chdir(originalDir) }\<close>. The \<^verbatim>\<open>finally\<close> block runs on every path, and what it throws
  replaces the outcome of the \<^verbatim>\<open>try\<close> block.
\<close>

definition withDir :: "'w sys \<Rightarrow> string \<Rightarrow> ('w, 'a) prog \<Rightarrow> ('w, 'a) prog" where
  "withDir sys dirPath callback s =
     (let originalDir = cwd s in
      case and_then (chdir sys dirPath) (\<lambda>_. callback) s of
        (r, s1) \<Rightarrow>
          (case chdir sys originalDir s1 of
             (Inl e, s2) \<Rightarrow> (Inl e, s2)
           | (Inr _, s2) \<Rightarrow> (r, s2)))"

section \<open>buildForAndroid\<close>

definition android_valid_archs :: "string list" where
  "android_valid_archs = [''arm'', ''arm64'', ''x86'', ''x86_64'']"

text \<open>Lines 135 to 139: the first entry outside the list is the one reported.\<close>

fun check_android_archs :: "string list \<Rightarrow> err + unit" where
  "check_android_archs [] = Inr ()"
| "check_android_archs (arch # archs) =
     (if arch \<in> set android_valid_archs then check_android_archs archs
      else Inl (InvalidAndroidArch arch))"

definition android_libs :: "string list" where
  "android_libs = [''libssl.a'', ''libcrypto.a'', ''libssl.so'', ''libcrypto.so'']"

text \<open>Lines 216 to 230.\<close>

fun android_copy_libs :: "'w sys \<Rightarrow> string \<Rightarrow> string \<Rightarrow> string list \<Rightarrow> ('w, unit) prog" where
  "android_copy_libs sys installPath archDistPath [] s = (Inr (), s)"
| "android_copy_libs sys installPath archDistPath (lib # libs) s =
     (let srcLibPath = installPath @ ''/lib/'' @ lib;
          dstLibPath = archDistPath @ ''/'' @ lib in
      if exists_sync sys (cwd s) srcLibPath (world s) then
        (case sh sys [''cp'', ''-a'', srcLibPath, dstLibPath] s of
           (Inl e, s') \<Rightarrow> (Inl e, s')
         | (Inr _, s') \<Rightarrow> android_copy_libs sys installPath archDistPath libs s')
      else (Inl (LibraryNotFound lib), s))"

text \<open>
  Lines 202 to 204. A missing \<^verbatim>\<open>PATH\<close> reads as \<^verbatim>\<open>undefined\<close> inside the template, and
  the API level is turned into a string by the assignment.
\<close>

definition android_set_env :: "string \<Rightarrow> jsval \<Rightarrow> string \<Rightarrow> ('w, unit) prog" where
  "android_set_env androidNDKHome api toolchainBinPath s =
     (Inr (), s\<lparr>env :=
        (''PATH'', toolchainBinPath @ '':''
            @ (case getenv s ''PATH'' of None \<Rightarrow> ''undefined'' | Some p \<Rightarrow> p))
        # (''ANDROID_API'', js_to_string api)
        # (''ANDROID_NDK_HOME'', androidNDKHome)
        # env s\<rparr>)"

text \<open>The body of the loop over the architectures, lines 184 to 241.\<close>

definition android_build_arch ::
  "'w sys \<Rightarrow> Options \<Rightarrow> string \<Rightarrow> string \<Rightarrow> string \<Rightarrow> string \<Rightarrow> ('w, unit) prog" where
  "android_build_arch sys options androidNDKHome toolchainBinPath dist arch =
     try_catch (AndroidArchFailed arch)
       (let installPath = ''/tmp/openssl-android-'' @ arch;
            config = ''android-'' @ arch;
            archDistPath = dist @ ''/'' @ arch in
        and_then (when_do (js_truthy (clean options)) (on_exit (RemovePath installPath))) (\<lambda>_.
        and_then (sh sys [''rm'', ''-rf'', installPath]) (\<lambda>_.
        and_then (android_set_env androidNDKHome (androidAPI options) toolchainBinPath) (\<lambda>_.
        and_then (sh_all sys
          [[''./Configure'', config, ''-fPIC'', ''no-ui-console'', ''no-engine'', ''no-filenames'',
            ''no-stdio'', ''--prefix='' @ installPath],
           [''make'', ''-j8''],
           [''make'', ''-j8'', ''install_sw''],
           [''make'', ''-j8'', ''install_ssldirs''],
           [''mkdir'', ''-p'', archDistPath]]) (\<lambda>_.
        and_then (android_copy_libs sys installPath archDistPath android_libs) (\<lambda>_.
        sh_all sys [[''rm'', ''-rf'', dist @ ''/include''],
                    [''cp'', ''-a'', installPath @ ''/include'', dist]]))))))"

fun android_build_archs ::
  "'w sys \<Rightarrow> Options \<Rightarrow> string \<Rightarrow> string \<Rightarrow> string \<Rightarrow> string list \<Rightarrow> ('w, unit) prog" where
  "android_build_archs sys options ndk bin dist [] s = (Inr (), s)"
| "android_build_archs sys options ndk bin dist (arch # archs) s =
     (case android_build_arch sys options ndk bin dist arch s of
        (Inl e, s') \<Rightarrow> (Inl e, s')
      | (Inr _, s') \<Rightarrow> android_build_archs sys options ndk bin dist archs s')"

text \<open>Lines 168 to 243: what follows the early return.\<close>

definition android_extract_and_build ::
  "'w sys \<Rightarrow> string \<Rightarrow> Options \<Rightarrow> string list \<Rightarrow> string \<Rightarrow> string \<Rightarrow> ('w, unit) prog" where
  "android_extract_and_build sys tarPath options archs androidNDKHome toolchainBinPath =
     (let dist = distPath options @ ''/android'';
          srcPath = ''/tmp/openssl_android'' in
      and_then (sh_all sys [[''rm'', ''-rf'', srcPath], [''mkdir'', ''-p'', srcPath]]) (\<lambda>_.
      and_then (try_catch UntarFailed (sh sys [''tar'', ''xf'', tarPath, ''-C'', srcPath])) (\<lambda>_ s.
        if \<not> exists_sync sys (cwd s) srcPath (world s) then (Inl ExtractFailed, s)
        else
          withDir sys (srcPath @ ''/openssl-'' @ js_to_string (opensslVersion options))
            (android_build_archs sys options androidNDKHome toolchainBinPath dist archs) s)))"

text \<open>
  Lines 160 to 167, once the toolchain directory is known: the dist directory, and the
  early return when the source directory exists and \<^verbatim>\<open>clean\<close> is off.
\<close>

definition android_unpack_and_build ::
  "'w sys \<Rightarrow> string \<Rightarrow> Options \<Rightarrow> string list \<Rightarrow> string \<Rightarrow> string \<Rightarrow> ('w, unit) prog" where
  "android_unpack_and_build sys tarPath options archs androidNDKHome toolchainBinPath =
     and_then (sh sys [''mkdir'', ''-p'', distPath options @ ''/android'']) (\<lambda>_ s.
       if exists_sync sys (cwd s) ''/tmp/openssl_android'' (world s) \<and> \<not> js_truthy (clean options)
       then (Inr (), s)
       else android_extract_and_build sys tarPath options archs androidNDKHome toolchainBinPath s)"

text \<open>
  Lines 145 to 158, once \<^verbatim>\<open>ANDROID_NDK_HOME\<close> is read: the one host directory under the
  prebuilt toolchains, whose \<^verbatim>\<open>bin\<close> goes first on the search path.
\<close>

definition android_with_toolchain ::
  "'w sys \<Rightarrow> string \<Rightarrow> Options \<Rightarrow> string list \<Rightarrow> string \<Rightarrow> ('w, unit) prog" where
  "android_with_toolchain sys tarPath options archs androidNDKHome =
     (let toolchainPath = androidNDKHome @ ''/toolchains/llvm/prebuilt'' in
      (\<lambda>s. if \<not> exists_sync sys (cwd s) toolchainPath (world s) then (Inl NdkHomeInvalid, s)
           else
             and_then (sh sys [''ls'', toolchainPath]) (\<lambda>out.
               (let hostDirs = split_on CHR 0x0A (js_trim out) in
                if length hostDirs \<noteq> 1 then throw NoSuitableToolchain
                else android_unpack_and_build sys tarPath options archs androidNDKHome
                       (toolchainPath @ ''/'' @ hd hostDirs @ ''/bin''))) s))"

text \<open>\<^verbatim>\<open>buildForAndroid\<close>, lines 129 to 244.\<close>

definition buildForAndroid :: "'w sys \<Rightarrow> string \<Rightarrow> Options \<Rightarrow> ('w, unit) prog" where
  "buildForAndroid sys tarPath options =
     and_then (lift (split_archs ''options.androidArchs'' (androidArchs options))) (\<lambda>archs.
     and_then (lift (check_android_archs archs)) (\<lambda>_ s.
       (case getenv s ''ANDROID_NDK_HOME'' of
          None \<Rightarrow> (Inl NdkHomeUnset, s)
        | Some androidNDKHome \<Rightarrow>
            if androidNDKHome = [] then (Inl NdkHomeUnset, s)
            else android_with_toolchain sys tarPath options archs androidNDKHome s)))"

section \<open>buildForIosIphoneos and buildForIosIphonesim\<close>

text \<open>
  The two functions (lines 253 to 375 and 385 to 510) are the same text but for the
  names of the platform, the configuration identifiers and the way the staged files are
  handed to \<^verbatim>\<open>lipo\<close>. They are modelled once, over the platform.
\<close>

datatype ios = Iphoneos | Iphonesim

definition ios_name :: "ios \<Rightarrow> string" where
  "ios_name p = (case p of Iphoneos \<Rightarrow> ''iphoneos'' | Iphonesim \<Rightarrow> ''iphonesim'')"

definition ios_archs :: "ios \<Rightarrow> Options \<Rightarrow> jsval" where
  "ios_archs p options = (case p of Iphoneos \<Rightarrow> iphoneosArchs options | Iphonesim \<Rightarrow> iphonesimArchs options)"

text \<open>Lines 311 and 444 to 447: every architecture other than \<^verbatim>\<open>arm64\<close> takes the second identifier.\<close>

definition ios_config :: "ios \<Rightarrow> string \<Rightarrow> string" where
  "ios_config p arch =
     (case p of
        Iphoneos \<Rightarrow> (if arch = ''arm64'' then ''ios64-xcrun'' else ''ios-xcrun'')
      | Iphonesim \<Rightarrow> (if arch = ''arm64'' then ''iossimulator-arm64-xcrun''
                      else ''iossimulator-x86_64-xcrun''))"

definition ios_libs :: "string list" where
  "ios_libs = [''libssl.a'', ''libcrypto.a'']"

definition staged :: "string \<Rightarrow> string \<Rightarrow> string \<Rightarrow> string" where
  "staged dist lib arch = dist @ ''/'' @ lib @ ''.'' @ arch"

text \<open>
  Lines 364 to 367 and 501 to 502. \<^verbatim>\<open>buildForIosIphoneos\<close> joins the staged paths with
  spaces and interpolates the one string; \<^verbatim>\<open>buildForIosIphonesim\<close> interpolates the array.
\<close>

definition lipo_command :: "ios \<Rightarrow> string \<Rightarrow> string \<Rightarrow> string list \<Rightarrow> string list" where
  "lipo_command p dist lib archs =
     (let archFiles = map (staged dist lib) archs in
      case p of
        Iphoneos \<Rightarrow> [''lipo'', join_with '' '' archFiles, ''-create'', ''-output'', dist @ ''/'' @ lib]
      | Iphonesim \<Rightarrow> [''lipo''] @ archFiles @ [''-create'', ''-output'', dist @ ''/'' @ lib])"

text \<open>Lines 333 to 347 and 469 to 483; \<open>multi\<close> is \<^verbatim>\<open>archs.length > 1\<close>.\<close>

fun ios_copy_libs :: "'w sys \<Rightarrow> bool \<Rightarrow> string \<Rightarrow> string \<Rightarrow> string \<Rightarrow> string list \<Rightarrow> ('w, unit) prog" where
  "ios_copy_libs sys multi installPath dist arch [] s = (Inr (), s)"
| "ios_copy_libs sys multi installPath dist arch (lib # libs) s =
     (let srcLibPath = installPath @ ''/lib/'' @ lib;
          dstLibPath = dist @ ''/'' @ lib in
      if exists_sync sys (cwd s) srcLibPath (world s) then
        (case sh sys (if multi then [''cp'', srcLibPath, dstLibPath @ ''.'' @ arch]
                      else [''cp'', srcLibPath, dstLibPath]) s of
           (Inl e, s') \<Rightarrow> (Inl e, s')
         | (Inr _, s') \<Rightarrow> ios_copy_libs sys multi installPath dist arch libs s')
      else (Inl (LibraryNotFound lib), s))"

text \<open>
  Where the install path of an architecture is kept. \<^verbatim>\<open>buildForIosIphoneos\<close> declares one
  variable before the loop (line 305, \<^verbatim>\<open>let installPath = ""\<close>), assigns it in every
  iteration (line 312) and registers a handler that reads it (lines 315 to 323);
  \<^verbatim>\<open>buildForIosIphonesim\<close> declares a \<^verbatim>\<open>const\<close> in every iteration (line 448), which the
  handler of that iteration keeps. \<open>var\<close> is the position of the variable, if there is one.
\<close>

definition declare_installPath :: "ios \<Rightarrow> ('w, nat option) prog" where
  "declare_installPath p s =
     (case p of
        Iphoneos \<Rightarrow> (Inr (Some (length (installPaths s))), s\<lparr>installPaths := installPaths s @ [[]]\<rparr>)
      | Iphonesim \<Rightarrow> (Inr None, s))"

definition assign_installPath :: "nat option \<Rightarrow> string \<Rightarrow> ('w, unit) prog" where
  "assign_installPath var installPath s =
     (case var of
        Some v \<Rightarrow> (Inr (), s\<lparr>installPaths := (installPaths s)[v := installPath]\<rparr>)
      | None \<Rightarrow> (Inr (), s))"

definition installPath_hook :: "nat option \<Rightarrow> string \<Rightarrow> hook" where
  "installPath_hook var installPath =
     (case var of Some v \<Rightarrow> RemoveInstallPath v | None \<Rightarrow> RemovePath installPath)"

text \<open>The body of the loop over the architectures, lines 307 to 358 and 439 to 492.\<close>

definition ios_build_arch ::
  "'w sys \<Rightarrow> ios \<Rightarrow> Options \<Rightarrow> string \<Rightarrow> bool \<Rightarrow> nat option \<Rightarrow> string \<Rightarrow> ('w, unit) prog" where
  "ios_build_arch sys p options dist multi var arch =
     try_catch (IosArchFailed (ios_name p) arch)
       (let config = ios_config p arch;
            installPath = ''/tmp/openssl-'' @ ios_name p @ ''-'' @ arch in
        and_then (assign_installPath var installPath) (\<lambda>_.
        and_then (when_do (js_truthy (clean options)) (on_exit (installPath_hook var installPath))) (\<lambda>_.
        and_then (sh_all sys
          [[''rm'', ''-rf'', installPath],
           [''./Configure'', config, ''no-ui-console'', ''no-engine'', ''no-filenames'',
            ''no-shared'', ''--prefix='' @ installPath],
           [''make'', ''-j8''],
           [''make'', ''-j8'', ''install_sw''],
           [''make'', ''-j8'', ''install_ssldirs'']]) (\<lambda>_.
        and_then (ios_copy_libs sys multi installPath dist arch ios_libs) (\<lambda>_.
        sh_all sys [[''rm'', ''-rf'', dist @ ''/include''],
                    [''cp'', ''-a'', installPath @ ''/include'', dist]])))))"

fun ios_build_archs ::
  "'w sys \<Rightarrow> ios \<Rightarrow> Options \<Rightarrow> string \<Rightarrow> bool \<Rightarrow> nat option \<Rightarrow> string list \<Rightarrow> ('w, unit) prog" where
  "ios_build_archs sys p options dist multi var [] s = (Inr (), s)"
| "ios_build_archs sys p options dist multi var (arch # archs) s =
     (case ios_build_arch sys p options dist multi var arch s of
        (Inl e, s') \<Rightarrow> (Inl e, s')
      | (Inr _, s') \<Rightarrow> ios_build_archs sys p options dist multi var archs s')"

text \<open>Lines 363 to 372 and 497 to 507: one \<^verbatim>\<open>lipo\<close>, then one \<^verbatim>\<open>rm\<close> for each staged file.\<close>

fun ios_merge :: "'w sys \<Rightarrow> ios \<Rightarrow> string \<Rightarrow> string list \<Rightarrow> string list \<Rightarrow> ('w, unit) prog" where
  "ios_merge sys p dist archs [] s = (Inr (), s)"
| "ios_merge sys p dist archs (lib # libs) s =
     (case sh sys (lipo_command p dist lib archs) s of
        (Inl e, s') \<Rightarrow> (Inl e, s')
      | (Inr _, s') \<Rightarrow>
          (case sh_all sys (map (\<lambda>arch. [''rm'', staged dist lib arch]) archs) s' of
             (Inl e, s'') \<Rightarrow> (Inl e, s'')
           | (Inr _, s'') \<Rightarrow> ios_merge sys p dist archs libs s''))"

text \<open>The callback handed to \<^verbatim>\<open>withDir\<close>, lines 303 to 374 and 436 to 509.\<close>

definition ios_in_source :: "'w sys \<Rightarrow> ios \<Rightarrow> Options \<Rightarrow> string \<Rightarrow> ('w, unit) prog" where
  "ios_in_source sys p options dist =
     and_then (lift (split_archs (''options.'' @ ios_name p @ ''Archs'') (ios_archs p options))) (\<lambda>archs.
     and_then (declare_installPath p) (\<lambda>var.
     and_then (ios_build_archs sys p options dist (length archs > 1) var archs) (\<lambda>_.
     if length archs > 1 then ios_merge sys p dist archs ios_libs else ret ())))"

text \<open>Lines 278 to 374 and 412 to 509: what follows the early return.\<close>

definition ios_extract_and_build :: "'w sys \<Rightarrow> ios \<Rightarrow> string \<Rightarrow> Options \<Rightarrow> ('w, unit) prog" where
  "ios_extract_and_build sys p tarPath options =
     (let dist = distPath options @ ''/'' @ ios_name p;
          srcPath = ''/tmp/openssl_'' @ ios_name p in
      and_then (sh_all sys [[''rm'', ''-rf'', srcPath], [''mkdir'', ''-p'', srcPath]]) (\<lambda>_.
      and_then (try_catch UntarFailed (sh sys [''tar'', ''xf'', tarPath, ''-C'', srcPath])) (\<lambda>_ s.
        if \<not> exists_sync sys (cwd s) srcPath (world s) then (Inl ExtractFailed, s)
        else
          and_then (when_do (js_truthy (clean options)) (on_exit (RemovePath srcPath))) (\<lambda>_.
          withDir sys (srcPath @ ''/openssl-'' @ js_to_string (opensslVersion options))
            (ios_in_source sys p options dist)) s)))"

text \<open>\<^verbatim>\<open>buildForIosIphoneos\<close> and \<^verbatim>\<open>buildForIosIphonesim\<close>, from their first line.\<close>

definition buildForIos :: "'w sys \<Rightarrow> ios \<Rightarrow> string \<Rightarrow> Options \<Rightarrow> ('w, unit) prog" where
  "buildForIos sys p tarPath options =
     (if \<not> js_truthy (ios_archs p options) then throw (IosArchsMissing (ios_name p))
      else
        and_then (try_catch XcodePathFailed (sh sys [''xcode-select'', ''-print-path''])) (\<lambda>developerPath.
        and_then (sh sys [''mkdir'', ''-p'', distPath options @ ''/'' @ ios_name p]) (\<lambda>_ s.
          if exists_sync sys (cwd s) (''/tmp/openssl_'' @ ios_name p) (world s)
             \<and> \<not> js_truthy (clean options)
          then (Inr (), s)
          else ios_extract_and_build sys p tarPath options s)))"

definition buildForIosIphoneos :: "'w sys \<Rightarrow> string \<Rightarrow> Options \<Rightarrow> ('w, unit) prog" where
  "buildForIosIphoneos sys = buildForIos sys Iphoneos"

definition buildForIosIphonesim :: "'w sys \<Rightarrow> string \<Rightarrow> Options \<Rightarrow> ('w, unit) prog" where
  "buildForIosIphonesim sys = buildForIos sys Iphonesim"

section \<open>main\<close>

text \<open>Lines 560 to 569: the platforms the target selects, in the order of the source.\<close>

definition build_targets :: "'w sys \<Rightarrow> string \<Rightarrow> Options \<Rightarrow> ('w, unit) prog" where
  "build_targets sys tarPath options =
     and_then (when_do (target options = JStr ''android'' \<or> target options = JStr ''all'')
                 (buildForAndroid sys tarPath options)) (\<lambda>_.
     and_then (when_do (target options = JStr ''iphoneos'' \<or> target options = JStr ''all'')
                 (buildForIosIphoneos sys tarPath options)) (\<lambda>_.
     when_do (target options = JStr ''iphonesim'' \<or> target options = JStr ''all'')
       (buildForIosIphonesim sys tarPath options)))"

text \<open>
  How \<^verbatim>\<open>main\<close> ends when it does not throw: it returns, or \<^verbatim>\<open>process.exit(0)\<close> ends the
  process after the help text.
\<close>

datatype finish = Completed | Exited nat

text \<open>
  Lines 552 to 559: the dist directory is emptied when \<^verbatim>\<open>clean\<close> is on and created, and
  the archive is downloaded; the result is the path of the archive.
\<close>

definition prepare :: "'w sys \<Rightarrow> Options \<Rightarrow> ('w, string) prog" where
  "prepare sys options =
     and_then (when_do (js_truthy (clean options))
                 (and_then (sh sys [''rm'', ''-rf'', distPath options]) (\<lambda>_. ret ()))) (\<lambda>_.
     and_then (sh sys [''mkdir'', ''-p'', distPath options]) (\<lambda>_.
     downloadOpenssl sys (opensslVersion options) (clean options)))"

text \<open>
  \<^verbatim>\<open>main\<close>, lines 512 to 571, from the object \<^verbatim>\<open>program.opts()\<close> the command-line parser
  returns.
\<close>

definition main :: "'w sys \<Rightarrow> jsobj \<Rightarrow> ('w, finish) prog" where
  "main sys input s =
     (if js_truthy (get_field input ''help'') then (Inr (Exited 0), s)
      else
        and_then (lift (createOptions (cwd s) input)) (\<lambda>options.
        and_then (prepare sys options) (\<lambda>tarPath.
        and_then (build_targets sys tarPath options) (\<lambda>_.
        ret Completed))) s)"

text \<open>
  Lines 573 to 578: the exit status of the process and the error logged, if any.
\<close>

definition run_script :: "'w sys \<Rightarrow> jsobj \<Rightarrow> 'w st \<Rightarrow> nat \<times> err option \<times> 'w st" where
  "run_script sys input s =
     (case main sys input s of
        (Inl e, s') \<Rightarrow> (1, Some e, s')
      | (Inr Completed, s') \<Rightarrow> (0, None, s')
      | (Inr (Exited n), s') \<Rightarrow> (n, None, s'))"

section \<open>The commands of a build\<close>

text \<open>
  The commands a platform build issues when nothing fails, in order. They are what the
  theorems below compare the recorded commands with.
\<close>

definition include_commands :: "string \<Rightarrow> string \<Rightarrow> string list list" where
  "include_commands dist installPath =
     [[''rm'', ''-rf'', dist @ ''/include''], [''cp'', ''-a'', installPath @ ''/include'', dist]]"

definition extract_commands :: "string \<Rightarrow> string \<Rightarrow> string list list" where
  "extract_commands tarPath srcPath =
     [[''rm'', ''-rf'', srcPath], [''mkdir'', ''-p'', srcPath], [''tar'', ''xf'', tarPath, ''-C'', srcPath]]"

definition android_build_commands :: "string \<Rightarrow> string \<Rightarrow> string list list" where
  "android_build_commands dist arch =
     [[''rm'', ''-rf'', ''/tmp/openssl-android-'' @ arch],
      [''./Configure'', ''android-'' @ arch, ''-fPIC'', ''no-ui-console'', ''no-engine'',
       ''no-filenames'', ''no-stdio'', ''--prefix='' @ ''/tmp/openssl-android-'' @ arch],
      [''make'', ''-j8''],
      [''make'', ''-j8'', ''install_sw''],
      [''make'', ''-j8'', ''install_ssldirs''],
      [''mkdir'', ''-p'', dist @ ''/'' @ arch]]
     @ map (\<lambda>lib. [''cp'', ''-a'', ''/tmp/openssl-android-'' @ arch @ ''/lib/'' @ lib,
                     dist @ ''/'' @ arch @ ''/'' @ lib]) android_libs"

definition android_commands :: "string \<Rightarrow> string \<Rightarrow> string \<Rightarrow> string list \<Rightarrow> string list list" where
  "android_commands androidNDKHome tarPath dist archs =
     [[''ls'', androidNDKHome @ ''/toolchains/llvm/prebuilt''], [''mkdir'', ''-p'', dist]]
     @ extract_commands tarPath ''/tmp/openssl_android''
     @ concat (map (\<lambda>arch. android_build_commands dist arch
                            @ include_commands dist (''/tmp/openssl-android-'' @ arch)) archs)"

definition ios_build_commands :: "ios \<Rightarrow> string \<Rightarrow> bool \<Rightarrow> string \<Rightarrow> string list list" where
  "ios_build_commands p dist multi arch =
     [[''rm'', ''-rf'', ''/tmp/openssl-'' @ ios_name p @ ''-'' @ arch],
      [''./Configure'', ios_config p arch, ''no-ui-console'', ''no-engine'', ''no-filenames'',
       ''no-shared'', ''--prefix='' @ ''/tmp/openssl-'' @ ios_name p @ ''-'' @ arch],
      [''make'', ''-j8''],
      [''make'', ''-j8'', ''install_sw''],
      [''make'', ''-j8'', ''install_ssldirs'']]
     @ map (\<lambda>lib. [''cp'', ''/tmp/openssl-'' @ ios_name p @ ''-'' @ arch @ ''/lib/'' @ lib,
                     if multi then staged dist lib arch else dist @ ''/'' @ lib]) ios_libs"

definition ios_merge_commands :: "ios \<Rightarrow> string \<Rightarrow> string list \<Rightarrow> string list list" where
  "ios_merge_commands p dist archs =
     concat (map (\<lambda>lib. lipo_command p dist lib archs
                          # map (\<lambda>arch. [''rm'', staged dist lib arch]) archs) ios_libs)"

definition ios_commands :: "ios \<Rightarrow> string \<Rightarrow> string \<Rightarrow> string list \<Rightarrow> string list list" where
  "ios_commands p tarPath dist archs =
     [[''xcode-select'', ''-print-path''], [''mkdir'', ''-p'', dist]]
     @ extract_commands tarPath (''/tmp/openssl_'' @ ios_name p)
     @ concat (map (\<lambda>arch. ios_build_commands p dist (length archs > 1) arch
                            @ include_commands dist (''/tmp/openssl-'' @ ios_name p @ ''-'' @ arch)) archs)
     @ (if length archs > 1 then ios_merge_commands p dist archs else [])"

text \<open>
  \<open>issues m cs\<close>: whatever the host does, a run of \<open>m\<close> records the commands \<open>cs\<close> up
  to the point where it stops, and all of them when it returns. \<open>issues_or m n cs\<close>
  allows a run that returns after the first \<open>n\<close> commands as well.
\<close>

definition issues :: "('w, 'a) prog \<Rightarrow> string list list \<Rightarrow> bool" where
  "issues m cs =
     (\<forall>s r s'. m s = (r, s') \<longrightarrow>
        (\<exists>k. trace s' = trace s @ map Sh (take k cs))
        \<and> (\<not> isl r \<longrightarrow> trace s' = trace s @ map Sh cs))"

definition issues_or :: "('w, 'a) prog \<Rightarrow> nat \<Rightarrow> string list list \<Rightarrow> bool" where
  "issues_or m n cs =
     (\<forall>s r s'. m s = (r, s') \<longrightarrow>
        (\<exists>k. trace s' = trace s @ map Sh (take k cs))
        \<and> (\<not> isl r \<longrightarrow> trace s' = trace s @ map Sh cs \<or> trace s' = trace s @ map Sh (take n cs)))"

section \<open>A host to run the program on\<close>

text \<open>
  A small host for the examples: the directories and the files that exist, and what the
  last \<^verbatim>\<open>./Configure\<close> was given. Each command does what the tool of that name does to
  this much of a file system; a command the program never issues fails.
\<close>

record host =
  dirs :: "string list"
  files :: "string list"
  configured_prefix :: string
  configured_shared :: bool

definition is_under :: "string \<Rightarrow> string \<Rightarrow> bool" where
  "is_under p q = (q = p \<or> take (length p + 1) q = p @ ''/'')"

definition add_path :: "string \<Rightarrow> string list \<Rightarrow> string list" where
  "add_path p ps = (if p \<in> set ps then ps else ps @ [p])"

definition basename :: "string \<Rightarrow> string" where
  "basename p = last (split_on CHR ''/'' p)"

definition children :: "string \<Rightarrow> string list \<Rightarrow> string list" where
  "children d ps =
     map (drop (length d + 1))
       (filter (\<lambda>q. take (length d + 1) q = d @ ''/'' \<and> CHR ''/'' \<notin> set (drop (length d + 1) q)) ps)"

definition host_exists :: "string \<Rightarrow> host \<Rightarrow> bool" where
  "host_exists p h = (p \<in> set (dirs h) \<or> p \<in> set (files h))"

definition host_copy :: "string \<Rightarrow> string \<Rightarrow> host \<Rightarrow> string option \<times> host" where
  "host_copy src dst h =
     (let to = (if dst \<in> set (dirs h) then dst @ ''/'' @ basename src else dst) in
      if src \<in> set (files h) then (Some [], h\<lparr>files := add_path to (files h)\<rparr>)
      else if src \<in> set (dirs h) then (Some [], h\<lparr>dirs := add_path to (dirs h)\<rparr>)
      else (None, h))"

definition host_sh :: "string \<Rightarrow> (string \<times> string) list \<Rightarrow> string list \<Rightarrow> host \<Rightarrow> string option \<times> host" where
  "host_sh dir environment argv h =
     (if length argv = 3 \<and> take 2 argv = [''rm'', ''-rf''] then
        (Some [], h\<lparr>dirs := filter (\<lambda>q. \<not> is_under (argv ! 2) q) (dirs h),
                    files := filter (\<lambda>q. \<not> is_under (argv ! 2) q) (files h)\<rparr>)
      else if length argv = 2 \<and> take 1 argv = [''rm''] then
        (if argv ! 1 \<in> set (files h) then (Some [], h\<lparr>files := removeAll (argv ! 1) (files h)\<rparr>)
         else (None, h))
      else if length argv = 3 \<and> take 2 argv = [''mkdir'', ''-p''] then
        (Some [], h\<lparr>dirs := add_path (argv ! 2) (dirs h)\<rparr>)
      else if length argv = 5 \<and> take 2 argv = [''tar'', ''xf''] \<and> argv ! 3 = ''-C'' then
        (if argv ! 2 \<in> set (files h) \<and> argv ! 4 \<in> set (dirs h) then
           (Some [], h\<lparr>dirs := add_path (argv ! 4 @ ''/''
                       @ take (length (basename (argv ! 2)) - 7) (basename (argv ! 2))) (dirs h)\<rparr>)
         else (None, h))
      else if take 1 argv = [''./Configure''] then
        (Some [], h\<lparr>configured_prefix := drop 9 (last argv),
                    configured_shared := (''no-shared'' \<notin> set argv)\<rparr>)
      else if argv = [''make'', ''-j8''] \<or> argv = [''make'', ''-j8'', ''install_ssldirs''] then
        (Some [], h)
      else if argv = [''make'', ''-j8'', ''install_sw''] then
        (Some [], h\<lparr>dirs := add_path (configured_prefix h @ ''/include'') (dirs h),
                    files := (if configured_shared h
                              then add_path (configured_prefix h @ ''/lib/libcrypto.so'')
                                     (add_path (configured_prefix h @ ''/lib/libssl.so'')
                                     (add_path (configured_prefix h @ ''/lib/libcrypto.a'')
                                     (add_path (configured_prefix h @ ''/lib/libssl.a'') (files h))))
                              else add_path (configured_prefix h @ ''/lib/libcrypto.a'')
                                     (add_path (configured_prefix h @ ''/lib/libssl.a'') (files h)))\<rparr>)
      else if length argv = 3 \<and> take 1 argv = [''cp''] then host_copy (argv ! 1) (argv ! 2) h
      else if length argv = 4 \<and> take 2 argv = [''cp'', ''-a''] then host_copy (argv ! 2) (argv ! 3) h
      else if length argv \<ge> 4 \<and> take 1 argv = [''lipo'']
              \<and> take 2 (drop (length argv - 3) argv) = [''-create'', ''-output''] then
        (if list_all (\<lambda>f. f \<in> set (files h)) (take (length argv - 4) (drop 1 argv))
         then (Some [], h\<lparr>files := add_path (last argv) (files h)\<rparr>)
         else (None, h))
      else if argv = [''xcode-select'', ''-print-path''] then
        (Some (''/Applications/Xcode.app/Contents/Developer'' @ [CHR 0x0A]), h)
      else if length argv = 2 \<and> take 1 argv = [''ls''] then
        (if argv ! 1 \<in> set (dirs h)
         then (Some (concat (map (\<lambda>n. n @ [CHR 0x0A]) (children (argv ! 1) (dirs h @ files h)))), h)
         else (None, h))
      else (None, h))"

definition host_sys :: "host sys" where
  "host_sys =
     \<lparr> sh_run = host_sh,
       exists_sync = (\<lambda>dir p h. host_exists p h),
       can_chdir = (\<lambda>dir p h. p \<in> set (dirs h)),
       fetch_write = (\<lambda>url file h. (True, h\<lparr>files := add_path file (files h)\<rparr>)) \<rparr>"

text \<open>A process started in \<^verbatim>\<open>/work\<close> on a host holding the given directories and files.\<close>

definition start :: "string list \<Rightarrow> string list \<Rightarrow> (string \<times> string) list \<Rightarrow> host st" where
  "start ds fs environment =
     \<lparr> world = \<lparr> dirs = ''/work'' # ds, files = fs, configured_prefix = [], configured_shared = True \<rparr>,
       cwd = ''/work'', env = environment, installPaths = [], exit_hooks = [],
       trace = [] \<rparr>"

text \<open>
  A host on which nothing goes wrong: every command succeeds and prints one line, every
  path exists and every download arrives.
\<close>

definition ideal_sys :: "unit sys" where
  "ideal_sys =
     \<lparr> sh_run = (\<lambda>dir environment argv w. (Some (''darwin-x86_64'' @ [CHR 0x0A]), w)),
       exists_sync = (\<lambda>dir p w. True),
       can_chdir = (\<lambda>dir p w. True),
       fetch_write = (\<lambda>url file w. (True, w)) \<rparr>"

definition ideal_start :: "(string \<times> string) list \<Rightarrow> unit st" where
  "ideal_start environment =
     \<lparr> world = (), cwd = ''/work'', env = environment, installPaths = [], exit_hooks = [],
       trace = [] \<rparr>"

text \<open>
  The options of a run for version 3.4.0 into \<^verbatim>\<open>/work/dist\<close>, with the same architecture
  list for the three platforms.
\<close>

definition options_for :: "string \<Rightarrow> jsval \<Rightarrow> Options" where
  "options_for archs cleanFlag =
     \<lparr> opensslVersion = JStr ''3.4.0'', target = JStr ''all'', clean = cleanFlag,
       distPath = ''/work/dist'', androidAPI = JUndefined, androidArchs = JStr archs,
       iphoneosArchs = JStr archs, iphonesimArchs = JStr archs \<rparr>"

section \<open>The commands a run records\<close>

lemma issuesI:
  assumes "\<And>s r s'. m s = (r, s') \<Longrightarrow> \<exists>k. trace s' = trace s @ map Sh (take k cs)"
      and "\<And>s a s'. m s = (Inr a, s') \<Longrightarrow> trace s' = trace s @ map Sh cs"
  shows "issues m cs"
  unfolding issues_def using assms by (metis isl_def sum.collapse(2))

lemma issuesD_prefix: "issues m cs \<Longrightarrow> m s = (r, s') \<Longrightarrow> \<exists>k. trace s' = trace s @ map Sh (take k cs)"
  unfolding issues_def by blast

lemma issuesD_all: "issues m cs \<Longrightarrow> m s = (Inr a, s') \<Longrightarrow> trace s' = trace s @ map Sh cs"
  unfolding issues_def by fastforce

lemma issues_ret: "issues (ret a) []"
  by (rule issuesI) (auto simp: ret_def)

lemma issues_throw: "issues (throw e) cs"
  by (rule issuesI) (auto simp: throw_def intro: exI [of _ 0])

lemma issues_lift_ok: "issues (lift (Inr a)) []"
  by (rule issuesI) (auto simp: lift_def)

lemma issues_lift_err: "issues (lift (Inl e)) cs"
  by (rule issuesI) (auto simp: lift_def intro: exI [of _ 0])

lemma issues_sh: "issues (sh sys c) [c]"
  by (rule issuesI) (auto simp: sh_def split: prod.splits option.splits intro: exI [of _ 1])

lemma issues_on_exit: "issues (on_exit p) []"
  by (rule issuesI) (auto simp: on_exit_def)

lemma issues_declare_installPath: "issues (declare_installPath p) []"
  by (rule issuesI) (auto simp: declare_installPath_def split: ios.splits)

lemma issues_assign_installPath: "issues (assign_installPath var p) []"
  by (rule issuesI) (auto simp: assign_installPath_def split: option.splits)

lemma issues_when_on_exit: "issues (when_do b (on_exit p)) []"
  by (simp add: when_do_def issues_on_exit issues_ret)

lemma issues_and_then:
  assumes m: "issues m cs" and f: "\<And>a. issues (f a) ds"
  shows "issues (and_then m f) (cs @ ds)"
proof (rule issuesI)
  fix s r s' assume run: "and_then m f s = (r, s')"
  obtain r1 s1 where m1: "m s = (r1, s1)" by (cases "m s")
  show "\<exists>k. trace s' = trace s @ map Sh (take k (cs @ ds))"
  proof (cases r1)
    case (Inl e)
    with run m1 have "s' = s1" by (simp add: and_then_def)
    moreover from issuesD_prefix [OF m m1] obtain k where "trace s1 = trace s @ map Sh (take k cs)" ..
    ultimately have "trace s' = trace s @ map Sh (take (min k (length cs)) (cs @ ds))"
      by (simp add: min_def)
    then show ?thesis ..
  next
    case (Inr a)
    with run m1 have fa: "f a s1 = (r, s')" by (simp add: and_then_def)
    from issuesD_all [OF m] m1 Inr have t1: "trace s1 = trace s @ map Sh cs" by simp
    from issuesD_prefix [OF f fa] obtain k where "trace s' = trace s1 @ map Sh (take k ds)" ..
    with t1 have "trace s' = trace s @ map Sh (take (length cs + k) (cs @ ds))" by simp
    then show ?thesis ..
  qed
next
  fix s b s' assume run: "and_then m f s = (Inr b, s')"
  obtain r1 s1 where m1: "m s = (r1, s1)" by (cases "m s")
  with run obtain a where r1: "r1 = Inr a" and fa: "f a s1 = (Inr b, s')"
    by (cases r1) (auto simp: and_then_def)
  from issuesD_all [OF m] m1 r1 have "trace s1 = trace s @ map Sh cs" by simp
  moreover from issuesD_all [OF f fa] have "trace s' = trace s1 @ map Sh ds" .
  ultimately show "trace s' = trace s @ map Sh (cs @ ds)" by simp
qed

lemma issues_try_catch: "issues m cs \<Longrightarrow> issues (try_catch w m) cs"
  unfolding issues_def try_catch_def
  by (auto split: prod.splits sum.splits)

lemma issues_sh_all: "issues (sh_all sys cs) cs"
proof (induction cs)
  case Nil
  show ?case by (rule issuesI) auto
next
  case (Cons c cs)
  have "sh_all sys (c # cs) = and_then (sh sys c) (\<lambda>_. sh_all sys cs)"
    by (rule ext) (simp add: and_then_def split: prod.splits sum.splits)
  with issues_and_then [OF issues_sh, of "\<lambda>_. sh_all sys cs" cs sys c] Cons show ?case
    by simp
qed

lemma chdir_trace: "chdir sys d s = (r, s') \<Longrightarrow> trace s' = trace s"
  by (auto simp: chdir_def split: if_splits)

lemma issues_withDir:
  assumes "issues callback cs"
  shows "issues (withDir sys d callback) cs"
proof (rule issuesI)
  fix s r s' assume run: "withDir sys d callback s = (r, s')"
  obtain r1 s1 where body: "and_then (chdir sys d) (\<lambda>_. callback) s = (r1, s1)"
    by (cases "and_then (chdir sys d) (\<lambda>_. callback) s")
  obtain r2 s2 where fin: "chdir sys (cwd s) s1 = (r2, s2)"
    by (cases "chdir sys (cwd s) s1")
  from run body fin have s': "s' = s2"
    by (auto simp: withDir_def split: sum.splits)
  have "\<exists>k. trace s1 = trace s @ map Sh (take k cs)"
  proof (cases "chdir sys d s")
    case (Pair r0 s0)
    show ?thesis
    proof (cases r0)
      case (Inl e)
      with Pair body have "s1 = s0" by (simp add: and_then_def)
      with chdir_trace [OF Pair] have "trace s1 = trace s @ map Sh (take 0 cs)" by simp
      then show ?thesis ..
    next
      case (Inr u)
      with Pair body have "callback s0 = (r1, s1)" by (simp add: and_then_def)
      from issuesD_prefix [OF assms this] chdir_trace [OF Pair] show ?thesis by simp
    qed
  qed
  with chdir_trace [OF fin] s' show "\<exists>k. trace s' = trace s @ map Sh (take k cs)" by simp
next
  fix s a s' assume run: "withDir sys d callback s = (Inr a, s')"
  obtain r1 s1 where body: "and_then (chdir sys d) (\<lambda>_. callback) s = (r1, s1)"
    by (cases "and_then (chdir sys d) (\<lambda>_. callback) s")
  obtain r2 s2 where fin: "chdir sys (cwd s) s1 = (r2, s2)"
    by (cases "chdir sys (cwd s) s1")
  from run body fin have s': "s' = s2" and r1: "r1 = Inr a"
    by (auto simp: withDir_def split: sum.splits)
  obtain r0 s0 where c0: "chdir sys d s = (r0, s0)" by (cases "chdir sys d s")
  with body r1 have "callback s0 = (Inr a, s1)"
    by (cases r0) (auto simp: and_then_def)
  from issuesD_all [OF assms this] chdir_trace [OF c0] chdir_trace [OF fin] s'
  show "trace s' = trace s @ map Sh cs" by simp
qed

lemma issues_unless:
  assumes "issues m cs"
  shows "issues (\<lambda>s. if c s then (Inl e, s) else m s) cs"
proof (rule issuesI)
  fix s r s' assume "(if c s then (Inl e, s) else m s) = (r, s')"
  then show "\<exists>k. trace s' = trace s @ map Sh (take k cs)"
    using issuesD_prefix [OF assms, of s r s'] by (auto split: if_splits intro: exI [of _ 0])
next
  fix s a s' assume "(if c s then (Inl e, s) else m s) = (Inr a, s')"
  then show "trace s' = trace s @ map Sh cs"
    using issuesD_all [OF assms, of s a s'] by (auto split: if_splits)
qed

lemma issues_android_set_env: "issues (android_set_env ndk api bin) []"
  by (rule issuesI) (auto simp: android_set_env_def)

lemma issues_android_copy_libs:
  "issues (android_copy_libs sys installPath archDistPath libs)
     (map (\<lambda>lib. [''cp'', ''-a'', installPath @ ''/lib/'' @ lib, archDistPath @ ''/'' @ lib]) libs)"
proof (induction libs)
  case Nil
  show ?case by (rule issuesI) auto
next
  case (Cons lib libs)
  let ?c = "[''cp'', ''-a'', installPath @ ''/lib/'' @ lib, archDistPath @ ''/'' @ lib]"
  have "android_copy_libs sys installPath archDistPath (lib # libs) =
          (\<lambda>s. if \<not> exists_sync sys (cwd s) (installPath @ ''/lib/'' @ lib) (world s)
                then (Inl (LibraryNotFound lib), s)
                else and_then (sh sys ?c) (\<lambda>_. android_copy_libs sys installPath archDistPath libs) s)"
    by (rule ext) (simp add: and_then_def Let_def split: prod.splits sum.splits)
  moreover have "issues (and_then (sh sys ?c) (\<lambda>_. android_copy_libs sys installPath archDistPath libs))
     ([?c] @ map (\<lambda>lib. [''cp'', ''-a'', installPath @ ''/lib/'' @ lib, archDistPath @ ''/'' @ lib]) libs)"
    by (rule issues_and_then [OF issues_sh]) (rule Cons)
  ultimately show ?case
    using issues_unless by fastforce
qed


lemma issues_orI:
  assumes "\<And>s r s'. m s = (r, s') \<Longrightarrow> \<exists>k. trace s' = trace s @ map Sh (take k cs)"
      and "\<And>s a s'. m s = (Inr a, s') \<Longrightarrow>
             trace s' = trace s @ map Sh cs \<or> trace s' = trace s @ map Sh (take n cs)"
  shows "issues_or m n cs"
  unfolding issues_or_def using assms by (metis isl_def sum.collapse(2))

lemma issues_orD_prefix:
  "issues_or m n cs \<Longrightarrow> m s = (r, s') \<Longrightarrow> \<exists>k. trace s' = trace s @ map Sh (take k cs)"
  unfolding issues_or_def by blast

lemma issues_orD_all:
  "issues_or m n cs \<Longrightarrow> m s = (Inr a, s') \<Longrightarrow>
     trace s' = trace s @ map Sh cs \<or> trace s' = trace s @ map Sh (take n cs)"
  unfolding issues_or_def by fastforce

lemma issues_early_return:
  assumes "issues m cs"
  shows "issues_or (\<lambda>s. if c s then (Inr a, s) else m s) 0 cs"
proof (rule issues_orI)
  fix s r s' assume "(if c s then (Inr a, s) else m s) = (r, s')"
  then show "\<exists>k. trace s' = trace s @ map Sh (take k cs)"
    using issuesD_prefix [OF assms, of s r s'] by (auto split: if_splits intro: exI [of _ 0])
next
  fix s b s' assume "(if c s then (Inr a, s) else m s) = (Inr b, s')"
  then show "trace s' = trace s @ map Sh cs \<or> trace s' = trace s @ map Sh (take 0 cs)"
    using issuesD_all [OF assms, of s b s'] by (auto split: if_splits)
qed

lemma issues_or_unless:
  assumes "issues_or m n cs"
  shows "issues_or (\<lambda>s. if c s then (Inl e, s) else m s) n cs"
proof (rule issues_orI)
  fix s r s' assume "(if c s then (Inl e, s) else m s) = (r, s')"
  then show "\<exists>k. trace s' = trace s @ map Sh (take k cs)"
    using issues_orD_prefix [OF assms, of s r s'] by (auto split: if_splits intro: exI [of _ 0])
next
  fix s a s' assume "(if c s then (Inl e, s) else m s) = (Inr a, s')"
  then show "trace s' = trace s @ map Sh cs \<or> trace s' = trace s @ map Sh (take n cs)"
    using issues_orD_all [OF assms, of s a s'] by (auto split: if_splits)
qed

lemma issues_or_throw: "issues_or (throw e) n cs"
  by (rule issues_orI) (auto simp: throw_def intro: exI [of _ 0])

lemma issues_or_and_then:
  assumes m: "issues m cs" and f: "\<And>a. issues_or (f a) n ds"
  shows "issues_or (and_then m f) (length cs + n) (cs @ ds)"
proof (rule issues_orI)
  fix s r s' assume run: "and_then m f s = (r, s')"
  obtain r1 s1 where m1: "m s = (r1, s1)" by (cases "m s")
  show "\<exists>k. trace s' = trace s @ map Sh (take k (cs @ ds))"
  proof (cases r1)
    case (Inl e)
    with run m1 have "s' = s1" by (simp add: and_then_def)
    moreover from issuesD_prefix [OF m m1] obtain k where "trace s1 = trace s @ map Sh (take k cs)" ..
    ultimately have "trace s' = trace s @ map Sh (take (min k (length cs)) (cs @ ds))"
      by (simp add: min_def)
    then show ?thesis ..
  next
    case (Inr a)
    with run m1 have fa: "f a s1 = (r, s')" by (simp add: and_then_def)
    from issuesD_all [OF m] m1 Inr have t1: "trace s1 = trace s @ map Sh cs" by simp
    from issues_orD_prefix [OF f fa] obtain k where "trace s' = trace s1 @ map Sh (take k ds)" ..
    with t1 have "trace s' = trace s @ map Sh (take (length cs + k) (cs @ ds))" by simp
    then show ?thesis ..
  qed
next
  fix s b s' assume run: "and_then m f s = (Inr b, s')"
  obtain r1 s1 where m1: "m s = (r1, s1)" by (cases "m s")
  with run obtain a where r1: "r1 = Inr a" and fa: "f a s1 = (Inr b, s')"
    by (cases r1) (auto simp: and_then_def)
  from issuesD_all [OF m] m1 r1 have "trace s1 = trace s @ map Sh cs" by simp
  with issues_orD_all [OF f fa]
  show "trace s' = trace s @ map Sh (cs @ ds) \<or> trace s' = trace s @ map Sh (take (length cs + n) (cs @ ds))"
    by auto
qed

lemma issues_android_build_arch:
  "issues (android_build_arch sys options ndk bin dist arch)
     (android_build_commands dist arch @ include_commands dist (''/tmp/openssl-android-'' @ arch))"
proof -
  let ?ip = "''/tmp/openssl-android-'' @ arch"
  let ?ad = "dist @ ''/'' @ arch"
  have "issues
     (and_then (when_do (js_truthy (clean options)) (on_exit (RemovePath ?ip))) (\<lambda>_.
      and_then (sh sys [''rm'', ''-rf'', ?ip]) (\<lambda>_.
      and_then (android_set_env ndk (androidAPI options) bin) (\<lambda>_.
      and_then (sh_all sys
          [[''./Configure'', ''android-'' @ arch, ''-fPIC'', ''no-ui-console'', ''no-engine'', ''no-filenames'',
            ''no-stdio'', ''--prefix='' @ ?ip],
           [''make'', ''-j8''],
           [''make'', ''-j8'', ''install_sw''],
           [''make'', ''-j8'', ''install_ssldirs''],
           [''mkdir'', ''-p'', ?ad]]) (\<lambda>_.
      and_then (android_copy_libs sys ?ip ?ad android_libs) (\<lambda>_.
      sh_all sys (include_commands dist ?ip)))))))
     ([] @ [[''rm'', ''-rf'', ?ip]] @ [] @
       [[''./Configure'', ''android-'' @ arch, ''-fPIC'', ''no-ui-console'', ''no-engine'', ''no-filenames'',
            ''no-stdio'', ''--prefix='' @ ?ip],
           [''make'', ''-j8''],
           [''make'', ''-j8'', ''install_sw''],
           [''make'', ''-j8'', ''install_ssldirs''],
           [''mkdir'', ''-p'', ?ad]]
       @ map (\<lambda>lib. [''cp'', ''-a'', ?ip @ ''/lib/'' @ lib, ?ad @ ''/'' @ lib]) android_libs
       @ include_commands dist ?ip)"
    by (intro issues_and_then issues_when_on_exit issues_sh issues_android_set_env issues_sh_all
          issues_android_copy_libs)
  then show ?thesis
    by (simp add: android_build_arch_def android_build_commands_def include_commands_def
          issues_try_catch Let_def)
qed

lemma issues_android_build_archs:
  "issues (android_build_archs sys options ndk bin dist archs)
     (concat (map (\<lambda>arch. android_build_commands dist arch
                            @ include_commands dist (''/tmp/openssl-android-'' @ arch)) archs))"
proof (induction archs)
  case Nil
  show ?case by (rule issuesI) auto
next
  case (Cons arch archs)
  have "android_build_archs sys options ndk bin dist (arch # archs) =
          and_then (android_build_arch sys options ndk bin dist arch)
            (\<lambda>_. android_build_archs sys options ndk bin dist archs)"
    by (rule ext) (simp add: and_then_def split: prod.splits sum.splits)
  with issues_and_then [OF issues_android_build_arch, of "\<lambda>_. android_build_archs sys options ndk bin dist archs", OF Cons]
  show ?case by simp
qed


lemma issues_if: "issues m cs \<Longrightarrow> issues m' cs \<Longrightarrow> issues (if b then m else m') cs"
  by simp

lemma issues_or_if: "issues_or m n cs \<Longrightarrow> issues_or m' n cs \<Longrightarrow> issues_or (if b then m else m') n cs"
  by simp

lemma issues_android_extract_and_build:
  "issues (android_extract_and_build sys tarPath options archs ndk bin)
     (extract_commands tarPath ''/tmp/openssl_android''
      @ concat (map (\<lambda>arch. android_build_commands (distPath options @ ''/android'') arch
                  @ include_commands (distPath options @ ''/android'') (''/tmp/openssl-android-'' @ arch)) archs))"
proof -
  let ?src = "''/tmp/openssl_android''"
  let ?loop = "concat (map (\<lambda>arch. android_build_commands (distPath options @ ''/android'') arch
                  @ include_commands (distPath options @ ''/android'') (''/tmp/openssl-android-'' @ arch)) archs)"
  have "issues
     (and_then (sh_all sys [[''rm'', ''-rf'', ?src], [''mkdir'', ''-p'', ?src]]) (\<lambda>_.
      and_then (try_catch UntarFailed (sh sys [''tar'', ''xf'', tarPath, ''-C'', ?src])) (\<lambda>_ s.
        if \<not> exists_sync sys (cwd s) ?src (world s) then (Inl ExtractFailed, s)
        else
          withDir sys (?src @ ''/openssl-'' @ js_to_string (opensslVersion options))
            (android_build_archs sys options ndk bin (distPath options @ ''/android'') archs) s)))
     ([[''rm'', ''-rf'', ?src], [''mkdir'', ''-p'', ?src]] @ [[''tar'', ''xf'', tarPath, ''-C'', ?src]] @ ?loop)"
    by (intro issues_and_then issues_sh_all issues_try_catch issues_sh issues_unless issues_withDir
          issues_android_build_archs)
  then show ?thesis
    by (simp add: android_extract_and_build_def extract_commands_def Let_def)
qed

lemma issues_or_android_unpack_and_build:
  "issues_or (android_unpack_and_build sys tarPath options archs ndk bin) 1
     ([''mkdir'', ''-p'', distPath options @ ''/android'']
      # extract_commands tarPath ''/tmp/openssl_android''
      @ concat (map (\<lambda>arch. android_build_commands (distPath options @ ''/android'') arch
                  @ include_commands (distPath options @ ''/android'') (''/tmp/openssl-android-'' @ arch)) archs))"
  unfolding android_unpack_and_build_def
  using issues_or_and_then [OF issues_sh, of _ 0, OF issues_early_return [OF issues_android_extract_and_build]]
  by simp

lemma issues_android_unpack_and_build:
  assumes "js_truthy (clean options)"
  shows "issues (android_unpack_and_build sys tarPath options archs ndk bin)
     ([''mkdir'', ''-p'', distPath options @ ''/android'']
      # extract_commands tarPath ''/tmp/openssl_android''
      @ concat (map (\<lambda>arch. android_build_commands (distPath options @ ''/android'') arch
                  @ include_commands (distPath options @ ''/android'') (''/tmp/openssl-android-'' @ arch)) archs))"
  unfolding android_unpack_and_build_def
  using issues_and_then [OF issues_sh, of _ _ sys "[''mkdir'', ''-p'', distPath options @ ''/android'']",
          OF issues_android_extract_and_build] assms
  by simp

lemma issues_or_android_with_toolchain:
  "issues_or (android_with_toolchain sys tarPath options archs ndk) 2
     (android_commands ndk tarPath (distPath options @ ''/android'') archs)"
proof -
  let ?tp = "ndk @ ''/toolchains/llvm/prebuilt''"
  let ?rest = "[''mkdir'', ''-p'', distPath options @ ''/android'']
      # extract_commands tarPath ''/tmp/openssl_android''
      @ concat (map (\<lambda>arch. android_build_commands (distPath options @ ''/android'') arch
                  @ include_commands (distPath options @ ''/android'') (''/tmp/openssl-android-'' @ arch)) archs)"
  have "issues_or
          (and_then (sh sys [''ls'', ?tp]) (\<lambda>out.
               (let hostDirs = split_on CHR 0x0A (js_trim out) in
                if length hostDirs \<noteq> 1 then throw NoSuitableToolchain
                else android_unpack_and_build sys tarPath options archs ndk
                       (?tp @ ''/'' @ hd hostDirs @ ''/bin''))))
          (length [[''ls'', ?tp]] + 1) ([[''ls'', ?tp]] @ ?rest)"
    by (rule issues_or_and_then [OF issues_sh])
       (unfold Let_def, intro issues_or_if issues_or_throw issues_or_android_unpack_and_build)
  from issues_or_unless [OF this, where e = NdkHomeInvalid
         and c = "\<lambda>s. \<not> exists_sync sys (cwd s) (ndk @ ''/toolchains/llvm/prebuilt'') (world s)"]
  show ?thesis
    by (simp add: android_with_toolchain_def android_commands_def Let_def numeral_2_eq_2)
qed

lemma issues_android_with_toolchain:
  assumes "js_truthy (clean options)"
  shows "issues (android_with_toolchain sys tarPath options archs ndk)
     (android_commands ndk tarPath (distPath options @ ''/android'') archs)"
proof -
  let ?tp = "ndk @ ''/toolchains/llvm/prebuilt''"
  let ?rest = "[''mkdir'', ''-p'', distPath options @ ''/android'']
      # extract_commands tarPath ''/tmp/openssl_android''
      @ concat (map (\<lambda>arch. android_build_commands (distPath options @ ''/android'') arch
                  @ include_commands (distPath options @ ''/android'') (''/tmp/openssl-android-'' @ arch)) archs)"
  have "issues
          (and_then (sh sys [''ls'', ?tp]) (\<lambda>out.
               (let hostDirs = split_on CHR 0x0A (js_trim out) in
                if length hostDirs \<noteq> 1 then throw NoSuitableToolchain
                else android_unpack_and_build sys tarPath options archs ndk
                       (?tp @ ''/'' @ hd hostDirs @ ''/bin''))))
          ([[''ls'', ?tp]] @ ?rest)"
    by (rule issues_and_then [OF issues_sh])
       (unfold Let_def, intro issues_if issues_throw issues_android_unpack_and_build [OF assms])
  from issues_unless [OF this, where e = NdkHomeInvalid
         and c = "\<lambda>s. \<not> exists_sync sys (cwd s) (ndk @ ''/toolchains/llvm/prebuilt'') (world s)"]
  show ?thesis
    by (simp add: android_with_toolchain_def android_commands_def Let_def numeral_2_eq_2)
qed

text \<open>The home of the NDK as \<^verbatim>\<open>buildForAndroid\<close> reads it.\<close>

lemma buildForAndroid_cases:
  assumes "androidArchs options = JStr a"
  shows "buildForAndroid sys tarPath options s =
           (case check_android_archs (split_on CHR '','' a) of
              Inl e \<Rightarrow> (Inl e, s)
            | Inr _ \<Rightarrow>
                (case getenv s ''ANDROID_NDK_HOME'' of
                   None \<Rightarrow> (Inl NdkHomeUnset, s)
                 | Some ndk \<Rightarrow>
                     if ndk = [] then (Inl NdkHomeUnset, s)
                     else android_with_toolchain sys tarPath options (split_on CHR '','' a) ndk s))"
  using assms
  by (simp add: buildForAndroid_def split_archs_def lift_def and_then_def split: sum.splits)

lemma buildForAndroid_commands:
  assumes archs: "androidArchs options = JStr a"
      and run: "buildForAndroid sys tarPath options s = (r, s')"
  shows "\<exists>ndk. (\<exists>k. trace s' = trace s @ map Sh (take k
              (android_commands ndk tarPath (distPath options @ ''/android'') (split_on CHR '','' a))))
         \<and> (r = Inr () \<longrightarrow> getenv s ''ANDROID_NDK_HOME'' = Some ndk)
         \<and> (r = Inr () \<longrightarrow>
               trace s' = trace s @ map Sh
                 (android_commands ndk tarPath (distPath options @ ''/android'') (split_on CHR '','' a))
               \<or> (\<not> js_truthy (clean options)
                   \<and> trace s' = trace s @ map Sh (take 2
                 (android_commands ndk tarPath (distPath options @ ''/android'') (split_on CHR '','' a)))))"
proof (cases "\<exists>ndk. ndk \<noteq> [] \<and> getenv s ''ANDROID_NDK_HOME'' = Some ndk
                \<and> check_android_archs (split_on CHR '','' a) = Inr ()")
  case False
  with run buildForAndroid_cases [OF archs, of sys tarPath s]
  have "s' = s \<and> isl r"
    by (auto split: sum.splits option.splits if_splits) (metis isl_def)+
  then have "trace s' = trace s @ map Sh (take 0 (android_commands [] tarPath (distPath options @ ''/android'') (split_on CHR '','' a)))"
    and "r \<noteq> Inr ()" by auto
  then show ?thesis by blast
next
  case True
  then obtain ndk where ndk: "ndk \<noteq> []" "getenv s ''ANDROID_NDK_HOME'' = Some ndk"
    and ok: "check_android_archs (split_on CHR '','' a) = Inr ()" by blast
  with run buildForAndroid_cases [OF archs, of sys tarPath s]
  have tc: "android_with_toolchain sys tarPath options (split_on CHR '','' a) ndk s = (r, s')"
    by simp
  let ?cs = "android_commands ndk tarPath (distPath options @ ''/android'') (split_on CHR '','' a)"
  have p: "\<exists>k. trace s' = trace s @ map Sh (take k ?cs)"
    by (rule issues_orD_prefix [OF issues_or_android_with_toolchain tc])
  have q: "trace s' = trace s @ map Sh ?cs
           \<or> (\<not> js_truthy (clean options) \<and> trace s' = trace s @ map Sh (take 2 ?cs))"
    if "r = Inr ()"
  proof (cases "js_truthy (clean options)")
    case True
    from tc that have "android_with_toolchain sys tarPath options (split_on CHR '','' a) ndk s = (Inr (), s')"
      by simp
    from issuesD_all [OF issues_android_with_toolchain [OF True] this] show ?thesis by simp
  next
    case False
    from tc that have "android_with_toolchain sys tarPath options (split_on CHR '','' a) ndk s = (Inr (), s')"
      by simp
    from issues_orD_all [OF issues_or_android_with_toolchain this] False show ?thesis by blast
  qed
  from p q ndk show ?thesis by blast
qed


lemma issues_ios_copy_libs:
  "issues (ios_copy_libs sys multi installPath dist arch libs)
     (map (\<lambda>lib. [''cp'', installPath @ ''/lib/'' @ lib,
                     if multi then staged dist lib arch else dist @ ''/'' @ lib]) libs)"
proof (induction libs)
  case Nil
  show ?case by (rule issuesI) auto
next
  case (Cons lib libs)
  let ?c = "[''cp'', installPath @ ''/lib/'' @ lib, if multi then staged dist lib arch else dist @ ''/'' @ lib]"
  have "ios_copy_libs sys multi installPath dist arch (lib # libs) =
          (\<lambda>s. if \<not> exists_sync sys (cwd s) (installPath @ ''/lib/'' @ lib) (world s)
                then (Inl (LibraryNotFound lib), s)
                else and_then (sh sys ?c) (\<lambda>_. ios_copy_libs sys multi installPath dist arch libs) s)"
    by (rule ext) (simp add: and_then_def Let_def staged_def split: prod.splits sum.splits)
  moreover have "issues (and_then (sh sys ?c) (\<lambda>_. ios_copy_libs sys multi installPath dist arch libs))
     ([?c] @ map (\<lambda>lib. [''cp'', installPath @ ''/lib/'' @ lib,
                     if multi then staged dist lib arch else dist @ ''/'' @ lib]) libs)"
    by (rule issues_and_then [OF issues_sh]) (rule Cons)
  ultimately show ?case
    using issues_unless by fastforce
qed

lemma issues_ios_build_arch:
  "issues (ios_build_arch sys p options dist multi var arch)
     (ios_build_commands p dist multi arch
      @ include_commands dist (''/tmp/openssl-'' @ ios_name p @ ''-'' @ arch))"
proof -
  let ?ip = "''/tmp/openssl-'' @ ios_name p @ ''-'' @ arch"
  have "issues
     (and_then (assign_installPath var ?ip) (\<lambda>_.
      and_then (when_do (js_truthy (clean options)) (on_exit (installPath_hook var ?ip))) (\<lambda>_.
      and_then (sh_all sys
          [[''rm'', ''-rf'', ?ip],
           [''./Configure'', ios_config p arch, ''no-ui-console'', ''no-engine'', ''no-filenames'',
            ''no-shared'', ''--prefix='' @ ?ip],
           [''make'', ''-j8''],
           [''make'', ''-j8'', ''install_sw''],
           [''make'', ''-j8'', ''install_ssldirs'']]) (\<lambda>_.
      and_then (ios_copy_libs sys multi ?ip dist arch ios_libs) (\<lambda>_.
      sh_all sys (include_commands dist ?ip))))))
     ([] @ [] @
       [[''rm'', ''-rf'', ?ip],
           [''./Configure'', ios_config p arch, ''no-ui-console'', ''no-engine'', ''no-filenames'',
            ''no-shared'', ''--prefix='' @ ?ip],
           [''make'', ''-j8''],
           [''make'', ''-j8'', ''install_sw''],
           [''make'', ''-j8'', ''install_ssldirs'']]
       @ map (\<lambda>lib. [''cp'', ?ip @ ''/lib/'' @ lib,
                     if multi then staged dist lib arch else dist @ ''/'' @ lib]) ios_libs
       @ include_commands dist ?ip)"
    by (intro issues_and_then issues_assign_installPath issues_when_on_exit issues_sh_all
          issues_ios_copy_libs)
  then show ?thesis
    by (simp add: ios_build_arch_def ios_build_commands_def include_commands_def
          issues_try_catch Let_def)
qed

lemma issues_ios_build_archs:
  "issues (ios_build_archs sys p options dist multi var archs)
     (concat (map (\<lambda>arch. ios_build_commands p dist multi arch
                @ include_commands dist (''/tmp/openssl-'' @ ios_name p @ ''-'' @ arch)) archs))"
proof (induction archs)
  case Nil
  show ?case by (rule issuesI) auto
next
  case (Cons arch archs)
  have "ios_build_archs sys p options dist multi var (arch # archs) =
          and_then (ios_build_arch sys p options dist multi var arch)
            (\<lambda>_. ios_build_archs sys p options dist multi var archs)"
    by (rule ext) (simp add: and_then_def split: prod.splits sum.splits)
  with issues_and_then [OF issues_ios_build_arch, of "\<lambda>_. ios_build_archs sys p options dist multi var archs", OF Cons]
  show ?case by simp
qed

lemma issues_ios_merge:
  "issues (ios_merge sys p dist archs libs)
     (concat (map (\<lambda>lib. lipo_command p dist lib archs
                          # map (\<lambda>arch. [''rm'', staged dist lib arch]) archs) libs))"
proof (induction libs)
  case Nil
  show ?case by (rule issuesI) auto
next
  case (Cons lib libs)
  have "ios_merge sys p dist archs (lib # libs) =
          and_then (sh sys (lipo_command p dist lib archs)) (\<lambda>_.
          and_then (sh_all sys (map (\<lambda>arch. [''rm'', staged dist lib arch]) archs)) (\<lambda>_.
          ios_merge sys p dist archs libs))"
    by (rule ext) (simp add: and_then_def split: prod.splits sum.splits)
  moreover have "issues (and_then (sh sys (lipo_command p dist lib archs)) (\<lambda>_.
          and_then (sh_all sys (map (\<lambda>arch. [''rm'', staged dist lib arch]) archs)) (\<lambda>_.
          ios_merge sys p dist archs libs)))
       ([lipo_command p dist lib archs] @ map (\<lambda>arch. [''rm'', staged dist lib arch]) archs
         @ concat (map (\<lambda>lib. lipo_command p dist lib archs
                          # map (\<lambda>arch. [''rm'', staged dist lib arch]) archs) libs))"
    by (intro issues_and_then issues_sh issues_sh_all Cons)
  ultimately show ?case by simp
qed

lemma issues_ios_in_source:
  assumes "ios_archs p options = JStr a"
  shows "issues (ios_in_source sys p options dist)
     (concat (map (\<lambda>arch. ios_build_commands p dist (length (split_on CHR '','' a) > 1) arch
                @ include_commands dist (''/tmp/openssl-'' @ ios_name p @ ''-'' @ arch))
                (split_on CHR '','' a))
      @ (if length (split_on CHR '','' a) > 1 then ios_merge_commands p dist (split_on CHR '','' a) else []))"
proof -
  let ?archs = "split_on CHR '','' a"
  have "ios_in_source sys p options dist =
          and_then (declare_installPath p) (\<lambda>var.
          and_then (ios_build_archs sys p options dist (length ?archs > 1) var ?archs) (\<lambda>_.
            if length ?archs > 1 then ios_merge sys p dist ?archs ios_libs else ret ()))"
    using assms by (rule_tac ext) (simp add: ios_in_source_def split_archs_def lift_def and_then_def)
  moreover have "issues (and_then (declare_installPath p) (\<lambda>var.
          and_then (ios_build_archs sys p options dist (length ?archs > 1) var ?archs) (\<lambda>_.
            if length ?archs > 1 then ios_merge sys p dist ?archs ios_libs else ret ())))
     ([] @ concat (map (\<lambda>arch. ios_build_commands p dist (length ?archs > 1) arch
                @ include_commands dist (''/tmp/openssl-'' @ ios_name p @ ''-'' @ arch)) ?archs)
      @ (if length ?archs > 1 then ios_merge_commands p dist ?archs else []))"
    by (intro issues_and_then issues_declare_installPath issues_ios_build_archs)
       (simp add: ios_merge_commands_def issues_ios_merge issues_ret)
  ultimately show ?thesis by simp
qed

lemma issues_ios_extract_and_build:
  assumes "ios_archs p options = JStr a"
  shows "issues (ios_extract_and_build sys p tarPath options)
     (extract_commands tarPath (''/tmp/openssl_'' @ ios_name p)
      @ concat (map (\<lambda>arch. ios_build_commands p (distPath options @ ''/'' @ ios_name p)
                      (length (split_on CHR '','' a) > 1) arch
                @ include_commands (distPath options @ ''/'' @ ios_name p)
                    (''/tmp/openssl-'' @ ios_name p @ ''-'' @ arch))
                (split_on CHR '','' a))
      @ (if length (split_on CHR '','' a) > 1
         then ios_merge_commands p (distPath options @ ''/'' @ ios_name p) (split_on CHR '','' a) else []))"
proof -
  let ?src = "''/tmp/openssl_'' @ ios_name p"
  let ?dist = "distPath options @ ''/'' @ ios_name p"
  let ?archs = "split_on CHR '','' a"
  let ?inner = "concat (map (\<lambda>arch. ios_build_commands p ?dist (length ?archs > 1) arch
                @ include_commands ?dist (''/tmp/openssl-'' @ ios_name p @ ''-'' @ arch)) ?archs)
      @ (if length ?archs > 1 then ios_merge_commands p ?dist ?archs else [])"
  have "issues
     (and_then (sh_all sys [[''rm'', ''-rf'', ?src], [''mkdir'', ''-p'', ?src]]) (\<lambda>_.
      and_then (try_catch UntarFailed (sh sys [''tar'', ''xf'', tarPath, ''-C'', ?src])) (\<lambda>_ s.
        if \<not> exists_sync sys (cwd s) ?src (world s) then (Inl ExtractFailed, s)
        else
          and_then (when_do (js_truthy (clean options)) (on_exit (RemovePath ?src))) (\<lambda>_.
          withDir sys (?src @ ''/openssl-'' @ js_to_string (opensslVersion options))
            (ios_in_source sys p options ?dist)) s)))
     ([[''rm'', ''-rf'', ?src], [''mkdir'', ''-p'', ?src]] @ [[''tar'', ''xf'', tarPath, ''-C'', ?src]]
       @ [] @ ?inner)"
    by (intro issues_and_then issues_sh_all issues_try_catch issues_sh issues_unless
          issues_when_on_exit issues_withDir issues_ios_in_source [OF assms])
  moreover have "extract_commands tarPath ?src @ ?inner =
      [[''rm'', ''-rf'', ?src], [''mkdir'', ''-p'', ?src]] @ [[''tar'', ''xf'', tarPath, ''-C'', ?src]]
       @ [] @ ?inner"
    by (simp add: extract_commands_def)
  ultimately show ?thesis
    unfolding ios_extract_and_build_def Let_def by simp
qed

lemma issues_or_buildForIos:
  assumes "ios_archs p options = JStr a"
  shows "issues_or (buildForIos sys p tarPath options) 2
           (ios_commands p tarPath (distPath options @ ''/'' @ ios_name p) (split_on CHR '','' a))"
proof (cases "js_truthy (ios_archs p options)")
  case False
  then show ?thesis by (simp add: buildForIos_def issues_or_throw)
next
  case True
  let ?dist = "distPath options @ ''/'' @ ios_name p"
  let ?archs = "split_on CHR '','' a"
  let ?rest = "extract_commands tarPath (''/tmp/openssl_'' @ ios_name p)
      @ concat (map (\<lambda>arch. ios_build_commands p ?dist (length ?archs > 1) arch
                @ include_commands ?dist (''/tmp/openssl-'' @ ios_name p @ ''-'' @ arch)) ?archs)
      @ (if length ?archs > 1 then ios_merge_commands p ?dist ?archs else [])"
  have inner: "issues_or (and_then (sh sys [''mkdir'', ''-p'', ?dist]) (\<lambda>_ s.
          if exists_sync sys (cwd s) (''/tmp/openssl_'' @ ios_name p) (world s)
             \<and> \<not> js_truthy (clean options)
          then (Inr (), s)
          else ios_extract_and_build sys p tarPath options s))
        (length [[''mkdir'', ''-p'', ?dist]] + 0) ([[''mkdir'', ''-p'', ?dist]] @ ?rest)"
    by (rule issues_or_and_then [OF issues_sh])
       (rule issues_early_return [OF issues_ios_extract_and_build [OF assms]])
  have "issues_or
     (and_then (try_catch XcodePathFailed (sh sys [''xcode-select'', ''-print-path''])) (\<lambda>developerPath.
        and_then (sh sys [''mkdir'', ''-p'', ?dist]) (\<lambda>_ s.
          if exists_sync sys (cwd s) (''/tmp/openssl_'' @ ios_name p) (world s)
             \<and> \<not> js_truthy (clean options)
          then (Inr (), s)
          else ios_extract_and_build sys p tarPath options s)))
     (length [[''xcode-select'', ''-print-path'']] + (length [[''mkdir'', ''-p'', ?dist]] + 0))
     ([[''xcode-select'', ''-print-path'']] @ [[''mkdir'', ''-p'', ?dist]] @ ?rest)"
    by (rule issues_or_and_then [OF issues_try_catch [OF issues_sh]]) (rule inner)
  note main = this
  have n: "length [[''xcode-select'', ''-print-path'']] + (length [[''mkdir'', ''-p'', ?dist]] + 0) = 2"
    by simp
  have cs: "ios_commands p tarPath ?dist ?archs =
              [[''xcode-select'', ''-print-path'']] @ [[''mkdir'', ''-p'', ?dist]] @ ?rest"
    by (simp add: ios_commands_def)
  have prog: "buildForIos sys p tarPath options =
     and_then (try_catch XcodePathFailed (sh sys [''xcode-select'', ''-print-path''])) (\<lambda>developerPath.
        and_then (sh sys [''mkdir'', ''-p'', ?dist]) (\<lambda>_ s.
          if exists_sync sys (cwd s) (''/tmp/openssl_'' @ ios_name p) (world s)
             \<and> \<not> js_truthy (clean options)
          then (Inr (), s)
          else ios_extract_and_build sys p tarPath options s))"
    using True by (simp add: buildForIos_def)
  show ?thesis
    unfolding prog cs by (rule main [unfolded n])
qed

lemma issues_buildForIos:
  assumes "ios_archs p options = JStr a" and "js_truthy (clean options)"
  shows "issues (buildForIos sys p tarPath options)
           (ios_commands p tarPath (distPath options @ ''/'' @ ios_name p) (split_on CHR '','' a))"
proof (cases "js_truthy (ios_archs p options)")
  case False
  then show ?thesis by (simp add: buildForIos_def issues_throw)
next
  case True
  let ?dist = "distPath options @ ''/'' @ ios_name p"
  let ?archs = "split_on CHR '','' a"
  let ?rest = "extract_commands tarPath (''/tmp/openssl_'' @ ios_name p)
      @ concat (map (\<lambda>arch. ios_build_commands p ?dist (length ?archs > 1) arch
                @ include_commands ?dist (''/tmp/openssl-'' @ ios_name p @ ''-'' @ arch)) ?archs)
      @ (if length ?archs > 1 then ios_merge_commands p ?dist ?archs else [])"
  have "issues
     (and_then (try_catch XcodePathFailed (sh sys [''xcode-select'', ''-print-path''])) (\<lambda>developerPath.
        and_then (sh sys [''mkdir'', ''-p'', ?dist]) (\<lambda>_.
          ios_extract_and_build sys p tarPath options)))
     ([[''xcode-select'', ''-print-path'']] @ [[''mkdir'', ''-p'', ?dist]] @ ?rest)"
    by (intro issues_and_then issues_try_catch issues_sh issues_ios_extract_and_build [OF assms(1)])
  note main = this
  have cs: "ios_commands p tarPath ?dist ?archs =
              [[''xcode-select'', ''-print-path'']] @ [[''mkdir'', ''-p'', ?dist]] @ ?rest"
    by (simp add: ios_commands_def)
  have prog: "buildForIos sys p tarPath options =
     and_then (try_catch XcodePathFailed (sh sys [''xcode-select'', ''-print-path''])) (\<lambda>developerPath.
        and_then (sh sys [''mkdir'', ''-p'', ?dist]) (\<lambda>_.
          ios_extract_and_build sys p tarPath options))"
    using True assms(2) by (simp add: buildForIos_def)
  show ?thesis
    unfolding prog cs by (rule main)
qed


lemma buildForIos_commands:
  assumes archs: "ios_archs p options = JStr a"
      and run: "buildForIos sys p tarPath options s = (r, s')"
  shows "(\<exists>k. trace s' = trace s @ map Sh (take k
            (ios_commands p tarPath (distPath options @ ''/'' @ ios_name p) (split_on CHR '','' a))))
         \<and> (r = Inr () \<longrightarrow>
               trace s' = trace s @ map Sh
                 (ios_commands p tarPath (distPath options @ ''/'' @ ios_name p) (split_on CHR '','' a))
               \<or> (\<not> js_truthy (clean options)
                   \<and> trace s' = trace s @ map Sh (take 2
                 (ios_commands p tarPath (distPath options @ ''/'' @ ios_name p) (split_on CHR '','' a)))))"
proof -
  let ?cs = "ios_commands p tarPath (distPath options @ ''/'' @ ios_name p) (split_on CHR '','' a)"
  have p: "\<exists>k. trace s' = trace s @ map Sh (take k ?cs)"
    by (rule issues_orD_prefix [OF issues_or_buildForIos [OF archs] run])
  have q: "trace s' = trace s @ map Sh ?cs
           \<or> (\<not> js_truthy (clean options) \<and> trace s' = trace s @ map Sh (take 2 ?cs))"
    if "r = Inr ()"
  proof (cases "js_truthy (clean options)")
    case True
    from run that have "buildForIos sys p tarPath options s = (Inr (), s')" by simp
    from issuesD_all [OF issues_buildForIos [OF archs True] this] show ?thesis by simp
  next
    case False
    from run that have "buildForIos sys p tarPath options s = (Inr (), s')" by simp
    from issues_orD_all [OF issues_or_buildForIos [OF archs] this] False show ?thesis by blast
  qed
  from p q show ?thesis by blast
qed

section \<open>createOptions\<close>

lemma split_on_nonempty: "split_on c s \<noteq> []"
  by (induction s) (auto split: list.splits)

text \<open>
  C1, as stated, fails: \<^verbatim>\<open>input.clean || true\<close> hands on a truthy value as it is, so an
  input whose \<^verbatim>\<open>clean\<close> is the string \<^verbatim>\<open>no\<close> is accepted and comes back with
  \<^verbatim>\<open>clean\<close> equal to that string, not to \<^verbatim>\<open>true\<close>.
\<close>

theorem createOptions_clean_string_counterexample:
  "createOptions ''/work'' [''opensslVersion'' \<mapsto> JStr ''3.4.0'', ''distPath'' \<mapsto> JStr ''dist'',
       ''clean'' \<mapsto> JStr ''no'']
     = Inr \<lparr> opensslVersion = JStr ''3.4.0'', target = JUndefined, clean = JStr ''no'',
             distPath = ''/work/dist'', androidAPI = JUndefined, androidArchs = JUndefined,
             iphoneosArchs = JUndefined, iphonesimArchs = JUndefined \<rparr>
   \<and> JStr ''no'' \<noteq> JBool True"
  by (simp add: createOptions_def get_field_def js_or_def path_resolve_def is_absolute_def)

text \<open>
  C1, amended. Whatever \<^verbatim>\<open>createOptions\<close> returns has a truthy \<^verbatim>\<open>clean\<close>, and the theorem
  says which value it is for every input: the boolean \<^verbatim>\<open>true\<close> when the input's \<^verbatim>\<open>clean\<close>
  is absent, \<^verbatim>\<open>null\<close>, a boolean (\<^verbatim>\<open>false\<close> included) or the empty string, and the input's
  own value when that is a non-empty string.
\<close>

theorem createOptions_clean:
  assumes "createOptions dir input = Inr options"
  shows "js_truthy (clean options)
         \<and> clean options =
             (case get_field input ''clean'' of
                JUndefined \<Rightarrow> JBool True
              | JNull \<Rightarrow> JBool True
              | JBool b \<Rightarrow> JBool True
              | JStr v \<Rightarrow> if v = [] then JBool True else JStr v)"
  using assms
  by (auto simp: createOptions_def js_or_def split: if_splits jsval.splits)

theorem createOptions_clean_witness:
  "createOptions ''/work'' [''opensslVersion'' \<mapsto> JStr ''3.4.0'', ''distPath'' \<mapsto> JStr ''dist'',
       ''clean'' \<mapsto> JBool False]
     = Inr \<lparr> opensslVersion = JStr ''3.4.0'', target = JUndefined, clean = JBool True,
             distPath = ''/work/dist'', androidAPI = JUndefined, androidArchs = JUndefined,
             iphoneosArchs = JUndefined, iphonesimArchs = JUndefined \<rparr>
   \<and> get_field [''opensslVersion'' \<mapsto> JStr ''3.4.0'', ''distPath'' \<mapsto> JStr ''dist'',
       ''clean'' \<mapsto> JBool False] ''clean'' = JBool False
   \<and> clean \<lparr> opensslVersion = JStr ''3.4.0'', target = JUndefined, clean = JBool True,
             distPath = ''/work/dist'', androidAPI = JUndefined, androidArchs = JUndefined,
             iphoneosArchs = JUndefined, iphonesimArchs = JUndefined \<rparr> = JBool True"
proof -
  have run: "createOptions ''/work'' [''opensslVersion'' \<mapsto> JStr ''3.4.0'', ''distPath'' \<mapsto> JStr ''dist'',
       ''clean'' \<mapsto> JBool False]
     = Inr \<lparr> opensslVersion = JStr ''3.4.0'', target = JUndefined, clean = JBool True,
             distPath = ''/work/dist'', androidAPI = JUndefined, androidArchs = JUndefined,
             iphoneosArchs = JUndefined, iphonesimArchs = JUndefined \<rparr>"
    by (simp add: createOptions_def get_field_def js_or_def path_resolve_def is_absolute_def)
  from createOptions_clean [OF run] run show ?thesis
    by (simp add: get_field_def)
qed

text \<open>
  C10, as stated, fails: an input whose \<^verbatim>\<open>opensslVersion\<close> is set and whose \<^verbatim>\<open>distPath\<close>
  is absent makes \<^verbatim>\<open>path.resolve\<close> throw.
\<close>

theorem createOptions_missing_distPath_counterexample:
  "createOptions ''/work'' [''opensslVersion'' \<mapsto> JStr ''3.4.0''] = Inl (NotAString ''paths[0]'')
   \<and> js_truthy (get_field [''opensslVersion'' \<mapsto> JStr ''3.4.0''] ''opensslVersion'')"
  by (simp add: createOptions_def get_field_def)

text \<open>
  C10, amended. \<^verbatim>\<open>createOptions\<close> throws exactly when \<^verbatim>\<open>opensslVersion\<close> is absent or
  falsy, or \<^verbatim>\<open>distPath\<close> is not a string. Nothing else is looked at: the version, the
  target, the API level and the three architecture lists are returned as they came, and
  a string \<^verbatim>\<open>distPath\<close> is never refused but resolved against the working directory.
\<close>

theorem createOptions_throws_iff:
  "((\<exists>e. createOptions dir input = Inl e) \<longleftrightarrow>
      (\<not> js_truthy (get_field input ''opensslVersion'')
       \<or> (\<forall>p. get_field input ''distPath'' \<noteq> JStr p)))
   \<and> (\<forall>options. createOptions dir input = Inr options \<longrightarrow>
         opensslVersion options = get_field input ''opensslVersion''
         \<and> target options = get_field input ''target''
         \<and> androidAPI options = get_field input ''androidAPI''
         \<and> androidArchs options = get_field input ''androidArchs''
         \<and> iphoneosArchs options = get_field input ''iphoneosArchs''
         \<and> iphonesimArchs options = get_field input ''iphonesimArchs''
         \<and> (\<exists>p. get_field input ''distPath'' = JStr p \<and> distPath options = path_resolve dir p))"
  by (cases "get_field input ''distPath''") (auto simp: createOptions_def)

theorem createOptions_throws_iff_witness:
  "createOptions ''/work''
     [''opensslVersion'' \<mapsto> JStr ''3.4.0'', ''target'' \<mapsto> JStr ''windows'',
      ''distPath'' \<mapsto> JStr ''../out/./dist/'', ''androidAPI'' \<mapsto> JStr ''-1'',
      ''androidArchs'' \<mapsto> JStr ''mips'']
   = Inr \<lparr> opensslVersion = JStr ''3.4.0'', target = JStr ''windows'', clean = JBool True,
           distPath = ''/out/dist'', androidAPI = JStr ''-1'', androidArchs = JStr ''mips'',
           iphoneosArchs = JUndefined, iphonesimArchs = JUndefined \<rparr>
   \<and> js_truthy (get_field [''opensslVersion'' \<mapsto> JStr ''3.4.0'', ''target'' \<mapsto> JStr ''windows'',
      ''distPath'' \<mapsto> JStr ''../out/./dist/'', ''androidAPI'' \<mapsto> JStr ''-1'',
      ''androidArchs'' \<mapsto> JStr ''mips''] ''opensslVersion'')
   \<and> get_field [''opensslVersion'' \<mapsto> JStr ''3.4.0'', ''target'' \<mapsto> JStr ''windows'',
      ''distPath'' \<mapsto> JStr ''../out/./dist/'', ''androidAPI'' \<mapsto> JStr ''-1'',
      ''androidArchs'' \<mapsto> JStr ''mips''] ''distPath'' = JStr ''../out/./dist/''"
  using createOptions_throws_iff [of "''/work''"
     "[''opensslVersion'' \<mapsto> JStr ''3.4.0'', ''target'' \<mapsto> JStr ''windows'',
      ''distPath'' \<mapsto> JStr ''../out/./dist/'', ''androidAPI'' \<mapsto> JStr ''-1'',
      ''androidArchs'' \<mapsto> JStr ''mips'']"]
  by (simp add: createOptions_def get_field_def js_or_def path_resolve_def is_absolute_def)

section \<open>withDir\<close>

text \<open>
  C9, as stated, fails: the \<^verbatim>\<open>finally\<close> block changes directory with \<^verbatim>\<open>process.chdir\<close>, which
  can throw. Here the callback removes the directory the process started in and returns
  normally; \<^verbatim>\<open>withDir\<close> then throws the failure of the change back instead of returning
  the callback's result, and the working directory stays \<^verbatim>\<open>/tmp\<close>.
\<close>

theorem withDir_finally_throws_counterexample:
  "sh host_sys [''rm'', ''-rf'', ''/work''] ((start [''/tmp''] [] [])\<lparr>cwd := ''/tmp''\<rparr>)
     = (Inr [], \<lparr> world = \<lparr> dirs = [''/tmp''], files = [],
                             configured_prefix = [], configured_shared = True \<rparr>,
                  cwd = ''/tmp'', env = [], installPaths = [], exit_hooks = [],
                  trace = [Sh [''rm'', ''-rf'', ''/work'']] \<rparr>)
   \<and> withDir host_sys ''/tmp'' (sh host_sys [''rm'', ''-rf'', ''/work'']) (start [''/tmp''] [] [])
     = (Inl (ChdirFailed ''/work''),
        \<lparr> world = \<lparr> dirs = [''/tmp''], files = [],
                             configured_prefix = [], configured_shared = True \<rparr>,
                  cwd = ''/tmp'', env = [], installPaths = [], exit_hooks = [],
                  trace = [Sh [''rm'', ''-rf'', ''/work'']] \<rparr>)
   \<and> cwd (start [''/tmp''] [] []) = ''/work''"
  by (simp add: withDir_def and_then_def chdir_def sh_def host_sys_def host_sh_def is_under_def
        start_def Let_def)

text \<open>
  C9, amended. \<^verbatim>\<open>withDir\<close> on every path, \<open>(r, s1)\<close> being what the callback returns or
  throws and the state it leaves when started in \<open>dirPath\<close>:
  \<^item> the directory is entered and the change back succeeds: the working directory is the
    one before the call, nothing else of the callback's state changes, and the caller
    gets exactly \<open>r\<close>;
  \<^item> the directory is entered and the change back fails: the caller gets that failure,
    whatever \<open>r\<close> was, and the working directory stays where the callback left it;
  \<^item> the directory cannot be entered: the callback does not run, the state is unchanged
    and the caller gets the failure to enter, or the failure of the change back if that
    fails too.
\<close>

theorem withDir_outcome:
  assumes "callback (s\<lparr>cwd := dirPath\<rparr>) = (r, s1)"
  shows "withDir sys dirPath callback s =
           (if can_chdir sys (cwd s) dirPath (world s) then
              (if can_chdir sys (cwd s1) (cwd s) (world s1) then (r, s1\<lparr>cwd := cwd s\<rparr>)
               else (Inl (ChdirFailed (cwd s)), s1))
            else
              (if can_chdir sys (cwd s) (cwd s) (world s) then (Inl (ChdirFailed dirPath), s)
               else (Inl (ChdirFailed (cwd s)), s)))"
  using assms by (simp add: withDir_def and_then_def chdir_def)

theorem withDir_outcome_witness:
  "withDir host_sys ''/tmp'' (sh host_sys [''mkdir'', ''-p'', ''/tmp/x'']) (start [''/tmp''] [] [])
     = (Inr [], \<lparr> world = \<lparr> dirs = [''/work'', ''/tmp'', ''/tmp/x''], files = [],
                             configured_prefix = [], configured_shared = True \<rparr>,
                  cwd = ''/work'', env = [], installPaths = [], exit_hooks = [],
                  trace = [Sh [''mkdir'', ''-p'', ''/tmp/x'']] \<rparr>)
   \<and> withDir host_sys ''/tmp'' (throw ExtractFailed) (start [''/tmp''] [] [])
     = (Inl ExtractFailed, start [''/tmp''] [] [])
   \<and> cwd (start [''/tmp''] [] []) = ''/work''"
proof -
  let ?init = "start [''/tmp''] [] []"
  let ?entered = "?init\<lparr>cwd := ''/tmp''\<rparr>"
  let ?called = "\<lparr> world = \<lparr> dirs = [''/work'', ''/tmp'', ''/tmp/x''], files = [],
                          configured_prefix = [], configured_shared = True \<rparr>,
               cwd = ''/tmp'', env = [], installPaths = [], exit_hooks = [],
               trace = [Sh [''mkdir'', ''-p'', ''/tmp/x'']] \<rparr>"
  have c1: "sh host_sys [''mkdir'', ''-p'', ''/tmp/x''] ?entered = (Inr [], ?called)"
    by (simp add: sh_def host_sys_def host_sh_def add_path_def start_def)
  have c2: "throw ExtractFailed ?entered = (Inl ExtractFailed, ?entered)"
    by (simp add: throw_def)
  from withDir_outcome [where callback = "sh host_sys [''mkdir'', ''-p'', ''/tmp/x'']"
                          and sys = host_sys, OF c1]
    withDir_outcome [where callback = "throw ExtractFailed" and sys = host_sys, OF c2]
  show ?thesis
    by (simp add: start_def host_sys_def)
qed

section \<open>Single-architecture and multi-architecture iOS builds\<close>

text \<open>
  C5. An iOS build (either platform) whose architecture list has one entry records a
  prefix of the fourteen commands below, whatever the host does: each library is copied
  straight to its canonical path in the platform's output directory, no staged
  \<^verbatim>\<open>lib.arch\<close> name and no \<^verbatim>\<open>lipo\<close> appears. A run that returns has recorded all fourteen,
  or only the first two when \<^verbatim>\<open>clean\<close> is off and the source directory was reused.
\<close>

theorem ios_single_arch_direct_copy:
  fixes p :: ios and options :: Options and arch tarPath :: string
  defines "dist \<equiv> distPath options @ ''/'' @ ios_name p"
      and "srcPath \<equiv> ''/tmp/openssl_'' @ ios_name p"
      and "installPath \<equiv> ''/tmp/openssl-'' @ ios_name p @ ''-'' @ arch"
  assumes archs: "ios_archs p options = JStr a"
      and single: "split_on CHR '','' a = [arch]"
      and run: "buildForIos sys p tarPath options s = (r, s')"
  shows "\<exists>k. trace s' = trace s @ map Sh (take k
           [[''xcode-select'', ''-print-path''],
            [''mkdir'', ''-p'', dist],
            [''rm'', ''-rf'', srcPath],
            [''mkdir'', ''-p'', srcPath],
            [''tar'', ''xf'', tarPath, ''-C'', srcPath],
            [''rm'', ''-rf'', installPath],
            [''./Configure'', ios_config p arch, ''no-ui-console'', ''no-engine'', ''no-filenames'',
             ''no-shared'', ''--prefix='' @ installPath],
            [''make'', ''-j8''],
            [''make'', ''-j8'', ''install_sw''],
            [''make'', ''-j8'', ''install_ssldirs''],
            [''cp'', installPath @ ''/lib/libssl.a'', dist @ ''/libssl.a''],
            [''cp'', installPath @ ''/lib/libcrypto.a'', dist @ ''/libcrypto.a''],
            [''rm'', ''-rf'', dist @ ''/include''],
            [''cp'', ''-a'', installPath @ ''/include'', dist]])
         \<and> (r = Inr () \<longrightarrow> k = 14 \<or> (k = 2 \<and> \<not> js_truthy (clean options)))"
proof -
  let ?cs = "[[''xcode-select'', ''-print-path''],
            [''mkdir'', ''-p'', dist],
            [''rm'', ''-rf'', srcPath],
            [''mkdir'', ''-p'', srcPath],
            [''tar'', ''xf'', tarPath, ''-C'', srcPath],
            [''rm'', ''-rf'', installPath],
            [''./Configure'', ios_config p arch, ''no-ui-console'', ''no-engine'', ''no-filenames'',
             ''no-shared'', ''--prefix='' @ installPath],
            [''make'', ''-j8''],
            [''make'', ''-j8'', ''install_sw''],
            [''make'', ''-j8'', ''install_ssldirs''],
            [''cp'', installPath @ ''/lib/libssl.a'', dist @ ''/libssl.a''],
            [''cp'', installPath @ ''/lib/libcrypto.a'', dist @ ''/libcrypto.a''],
            [''rm'', ''-rf'', dist @ ''/include''],
            [''cp'', ''-a'', installPath @ ''/include'', dist]]"
  have cs: "ios_commands p tarPath (distPath options @ ''/'' @ ios_name p) (split_on CHR '','' a) = ?cs"
    by (simp add: single ios_commands_def extract_commands_def ios_build_commands_def
          include_commands_def ios_libs_def dist_def srcPath_def installPath_def)
  have len: "length ?cs = 14" by simp
  from buildForIos_commands [OF archs run, unfolded cs]
  obtain k where k: "trace s' = trace s @ map Sh (take k ?cs)"
    and full: "r = Inr () \<Longrightarrow> trace s' = trace s @ map Sh ?cs
                 \<or> (\<not> js_truthy (clean options) \<and> trace s' = trace s @ map Sh (take 2 ?cs))"
    by blast
  show ?thesis
  proof (cases "r = Inr ()")
    case False
    with k show ?thesis by blast
  next
    case True
    from full [OF True] show ?thesis
    proof
      assume "trace s' = trace s @ map Sh ?cs"
      then have "trace s' = trace s @ map Sh (take 14 ?cs)" by simp
      then show ?thesis by blast
    next
      assume "\<not> js_truthy (clean options) \<and> trace s' = trace s @ map Sh (take 2 ?cs)"
      then show ?thesis by blast
    qed
  qed
qed


section \<open>The include directory\<close>

lemma concat_map_last:
  assumes "xs \<noteq> []"
  shows "concat (map (\<lambda>x. f x @ g x) xs) = concat (map (\<lambda>x. f x @ g x) (butlast xs)) @ f (last xs) @ g (last xs)"
proof -
  from assms have "xs = butlast xs @ [last xs]" by simp
  then have "concat (map (\<lambda>x. f x @ g x) xs) = concat (map (\<lambda>x. f x @ g x) (butlast xs @ [last xs]))"
    by simp
  then show ?thesis by simp
qed

text \<open>
  C6. In a platform build that returns (and did not stop at the reuse of the source
  directory), every architecture's block of commands ends by removing the platform's
  \<^verbatim>\<open>include\<close> directory and copying that architecture's headers in its place, in the
  order of the list; so the last such pair is the one of the last architecture, and only
  the merge of the staged libraries follows it.
\<close>

theorem headers_last_write_wins:
  fixes options :: Options and p :: ios and tarPath a b :: string
  defines "android \<equiv> distPath options @ ''/android''"
      and "ios \<equiv> distPath options @ ''/'' @ ios_name p"
      and "androidArchList \<equiv> split_on CHR '','' a"
      and "iosArchList \<equiv> split_on CHR '','' b"
  shows
   "(androidArchs options = JStr a \<and> buildForAndroid sys tarPath options s = (Inr (), s') \<longrightarrow>
       (\<exists>ndk before.
          trace s' = trace s @ map Sh
            ([[''ls'', ndk @ ''/toolchains/llvm/prebuilt''], [''mkdir'', ''-p'', android]]
             @ extract_commands tarPath ''/tmp/openssl_android''
             @ concat (map (\<lambda>arch. android_build_commands android arch
                  @ [[''rm'', ''-rf'', android @ ''/include''],
                     [''cp'', ''-a'', ''/tmp/openssl-android-'' @ arch @ ''/include'', android]])
                 androidArchList))
          \<and> trace s' = trace s @ map Sh
            (before
             @ [[''rm'', ''-rf'', android @ ''/include''],
                [''cp'', ''-a'', ''/tmp/openssl-android-'' @ last androidArchList @ ''/include'', android]]))
       \<or> (\<not> js_truthy (clean options)
           \<and> (\<exists>ndk. trace s' = trace s @ map Sh
                 [[''ls'', ndk @ ''/toolchains/llvm/prebuilt''], [''mkdir'', ''-p'', android]])))
    \<and> (ios_archs p options = JStr b \<and> buildForIos sys2 p tarPath options t = (Inr (), t') \<longrightarrow>
       (\<exists>before.
          trace t' = trace t @ map Sh
            ([[''xcode-select'', ''-print-path''], [''mkdir'', ''-p'', ios]]
             @ extract_commands tarPath (''/tmp/openssl_'' @ ios_name p)
             @ concat (map (\<lambda>arch. ios_build_commands p ios (length iosArchList > 1) arch
                  @ [[''rm'', ''-rf'', ios @ ''/include''],
                     [''cp'', ''-a'', ''/tmp/openssl-'' @ ios_name p @ ''-'' @ arch @ ''/include'', ios]])
                 iosArchList)
             @ (if length iosArchList > 1 then ios_merge_commands p ios iosArchList else []))
          \<and> trace t' = trace t @ map Sh
            (before
             @ [[''rm'', ''-rf'', ios @ ''/include''],
                [''cp'', ''-a'', ''/tmp/openssl-'' @ ios_name p @ ''-'' @ last iosArchList @ ''/include'', ios]]
             @ (if length iosArchList > 1 then ios_merge_commands p ios iosArchList else [])))
       \<or> (\<not> js_truthy (clean options)
           \<and> trace t' = trace t @ map Sh
                 [[''xcode-select'', ''-print-path''], [''mkdir'', ''-p'', ios]]))"
proof (intro conjI impI)
  assume h: "androidArchs options = JStr a \<and> buildForAndroid sys tarPath options s = (Inr (), s')"
  let ?B = "\<lambda>arch. android_build_commands android arch"
  let ?I = "\<lambda>arch. [[''rm'', ''-rf'', android @ ''/include''],
                     [''cp'', ''-a'', ''/tmp/openssl-android-'' @ arch @ ''/include'', android]]"
  from h buildForAndroid_commands [of options a sys tarPath s "Inr ()" s']
  obtain ndk where
    "trace s' = trace s @ map Sh (android_commands ndk tarPath android androidArchList)
     \<or> (\<not> js_truthy (clean options)
         \<and> trace s' = trace s @ map Sh (take 2 (android_commands ndk tarPath android androidArchList)))"
    unfolding android_def androidArchList_def by blast
  then show "(\<exists>ndk before.
          trace s' = trace s @ map Sh
            ([[''ls'', ndk @ ''/toolchains/llvm/prebuilt''], [''mkdir'', ''-p'', android]]
             @ extract_commands tarPath ''/tmp/openssl_android''
             @ concat (map (\<lambda>arch. ?B arch @ ?I arch) androidArchList))
          \<and> trace s' = trace s @ map Sh (before @ ?I (last androidArchList)))
       \<or> (\<not> js_truthy (clean options)
           \<and> (\<exists>ndk. trace s' = trace s @ map Sh
                 [[''ls'', ndk @ ''/toolchains/llvm/prebuilt''], [''mkdir'', ''-p'', android]]))"
  proof
    assume full: "trace s' = trace s @ map Sh (android_commands ndk tarPath android androidArchList)"
    have ne: "androidArchList \<noteq> []"
      by (simp add: androidArchList_def split_on_nonempty)
    let ?pre = "[[''ls'', ndk @ ''/toolchains/llvm/prebuilt''], [''mkdir'', ''-p'', android]]
             @ extract_commands tarPath ''/tmp/openssl_android''"
    have cs: "android_commands ndk tarPath android androidArchList
               = ?pre @ concat (map (\<lambda>arch. ?B arch @ ?I arch) androidArchList)"
      by (simp add: android_commands_def include_commands_def)
    have "concat (map (\<lambda>arch. ?B arch @ ?I arch) androidArchList)
            = (concat (map (\<lambda>arch. ?B arch @ ?I arch) (butlast androidArchList)) @ ?B (last androidArchList))
              @ ?I (last androidArchList)"
      using concat_map_last [OF ne, of ?B ?I] by simp
    with full cs have
      f1: "trace s' = trace s @ map Sh
            ([[''ls'', ndk @ ''/toolchains/llvm/prebuilt''], [''mkdir'', ''-p'', android]]
             @ extract_commands tarPath ''/tmp/openssl_android''
             @ concat (map (\<lambda>arch. ?B arch @ ?I arch) androidArchList))" and
      f2: "trace s' = trace s @ map Sh ((?pre @ concat (map (\<lambda>arch. ?B arch @ ?I arch) (butlast androidArchList))
                                      @ ?B (last androidArchList)) @ ?I (last androidArchList))"
      by simp_all
    show ?thesis
      by (intro disjI1 exI conjI) (rule f1, rule f2)
  next
    assume "\<not> js_truthy (clean options)
         \<and> trace s' = trace s @ map Sh (take 2 (android_commands ndk tarPath android androidArchList))"
    then have "\<not> js_truthy (clean options)
         \<and> trace s' = trace s @ map Sh [[''ls'', ndk @ ''/toolchains/llvm/prebuilt''], [''mkdir'', ''-p'', android]]"
      by (simp add: android_commands_def)
    then show ?thesis by blast
  qed
next
  assume h: "ios_archs p options = JStr b \<and> buildForIos sys2 p tarPath options t = (Inr (), t')"
  let ?multi = "length iosArchList > 1"
  let ?B = "\<lambda>arch. ios_build_commands p ios ?multi arch"
  let ?I = "\<lambda>arch. [[''rm'', ''-rf'', ios @ ''/include''],
                     [''cp'', ''-a'', ''/tmp/openssl-'' @ ios_name p @ ''-'' @ arch @ ''/include'', ios]]"
  let ?M = "if ?multi then ios_merge_commands p ios iosArchList else []"
  let ?pre = "[[''xcode-select'', ''-print-path''], [''mkdir'', ''-p'', ios]]
             @ extract_commands tarPath (''/tmp/openssl_'' @ ios_name p)"
  from h buildForIos_commands [of p options b sys2 tarPath t "Inr ()" t']
  have "trace t' = trace t @ map Sh (ios_commands p tarPath ios iosArchList)
     \<or> (\<not> js_truthy (clean options)
         \<and> trace t' = trace t @ map Sh (take 2 (ios_commands p tarPath ios iosArchList)))"
    unfolding ios_def iosArchList_def by blast
  then show "(\<exists>before.
          trace t' = trace t @ map Sh
            ([[''xcode-select'', ''-print-path''], [''mkdir'', ''-p'', ios]]
             @ extract_commands tarPath (''/tmp/openssl_'' @ ios_name p)
             @ concat (map (\<lambda>arch. ?B arch @ ?I arch) iosArchList) @ ?M)
          \<and> trace t' = trace t @ map Sh (before @ ?I (last iosArchList) @ ?M))
       \<or> (\<not> js_truthy (clean options)
           \<and> trace t' = trace t @ map Sh [[''xcode-select'', ''-print-path''], [''mkdir'', ''-p'', ios]])"
  proof
    assume full: "trace t' = trace t @ map Sh (ios_commands p tarPath ios iosArchList)"
    have ne: "iosArchList \<noteq> []"
      by (simp add: iosArchList_def split_on_nonempty)
    have cs: "ios_commands p tarPath ios iosArchList
               = ?pre @ concat (map (\<lambda>arch. ?B arch @ ?I arch) iosArchList) @ ?M"
      by (simp add: ios_commands_def include_commands_def)
    have "concat (map (\<lambda>arch. ?B arch @ ?I arch) iosArchList)
            = (concat (map (\<lambda>arch. ?B arch @ ?I arch) (butlast iosArchList)) @ ?B (last iosArchList))
              @ ?I (last iosArchList)"
      using concat_map_last [OF ne, of ?B ?I] by simp
    with full cs have
      f1: "trace t' = trace t @ map Sh
            ([[''xcode-select'', ''-print-path''], [''mkdir'', ''-p'', ios]]
             @ extract_commands tarPath (''/tmp/openssl_'' @ ios_name p)
             @ concat (map (\<lambda>arch. ?B arch @ ?I arch) iosArchList) @ ?M)" and
      f2: "trace t' = trace t @ map Sh ((?pre @ concat (map (\<lambda>arch. ?B arch @ ?I arch) (butlast iosArchList))
                                      @ ?B (last iosArchList)) @ ?I (last iosArchList) @ ?M)"
      by simp_all
    show ?thesis
      by (intro disjI1 exI conjI) (rule f1, rule f2)
  next
    assume "\<not> js_truthy (clean options)
         \<and> trace t' = trace t @ map Sh (take 2 (ios_commands p tarPath ios iosArchList))"
    then show ?thesis
      by (simp add: ios_commands_def)
  qed
qed

end
